theory Spec2Isabelle
  imports Complex_Main
begin

section \<open>The OpenAI provider: data model\<close>

text \<open>
  The development embeds \<^verbatim>\<open>src/providers/openai/index.ts\<close>: the function
  \<^verbatim>\<open>openaiProvider.executeRequest\<close>. The SDK call
  \<^verbatim>\<open>openai.chat.completions.create\<close>, the registry call \<^verbatim>\<open>executeTool\<close> and the
  built-ins \<^verbatim>\<open>JSON.parse\<close> and \<^verbatim>\<open>JSON.stringify\<close> are not part of the file; they
  are parameters of the model. Logging and the clock do not influence the result and
  are left out.
\<close>

subsection \<open>JSON values and JavaScript objects\<close>

text \<open>
  The values the provider handles: the JSON values, and the BigInt, which
  \<^verbatim>\<open>JSON.parse\<close> never yields but a tool may return and which \<^verbatim>\<open>JSON.stringify\<close>
  refuses with a \<^verbatim>\<open>TypeError\<close>. Numbers are only stored, compared with 0 and passed
  on, never computed with, so a JavaScript number is a real here.
\<close>

type_synonym number = real

datatype json =
    JNull
  | JBool bool
  | JNum number
  | JStr string
  | JArr "json list"
  | JObj "(string \<times> json) list"
  | JBigInt int

text \<open>
  An object is the list of its properties in insertion order. Writing a property
  replaces the value of an existing key in place and appends a new key at the end.
\<close>

fun setProp :: "string \<Rightarrow> json \<Rightarrow> (string \<times> json) list \<Rightarrow> (string \<times> json) list" where
  "setProp k v [] = [(k, v)]"
| "setProp k v ((k', v') # ps) =
     (if k' = k then (k, v) # ps else (k', v') # setProp k v ps)"

text \<open>
  \<open>property ps k\<close> is the value that an object holds at key \<open>k\<close> once the
  bindings \<open>ps\<close> have been written to it in order: a key bound twice keeps its last
  value. On a property list with distinct keys it is plain lookup.
\<close>

definition property :: "(string \<times> json) list \<Rightarrow> string \<Rightarrow> json option" where
  "property ps k = map_of (rev ps) k"

definition digit :: "nat \<Rightarrow> char" where
  "digit n = char_of (48 + n)"

function indexKey :: "nat \<Rightarrow> string" where
  "indexKey n = (if n < 10 then [digit n] else indexKey (n div 10) @ [digit (n mod 10)])"
  by pat_completeness auto
termination
  by (relation "measure (\<lambda>n. n)") auto

text \<open>
  The own enumerable properties that a spread \<^verbatim>\<open>...v\<close> copies: the properties of an
  object, the indexed elements of an array, the indexed characters of a string, and
  nothing for a number, a BigInt, a boolean or \<^verbatim>\<open>null\<close>.
\<close>

fun ownProperties :: "json \<Rightarrow> (string \<times> json) list" where
  "ownProperties (JObj ps) = ps"
| "ownProperties (JArr xs) = zip (map indexKey [0..<length xs]) xs"
| "ownProperties (JStr s) = zip (map indexKey [0..<length s]) (map (\<lambda>c. JStr [c]) s)"
| "ownProperties _ = []"

text \<open>\<open>assign target ps\<close> writes the bindings \<open>ps\<close> to \<open>target\<close>, first to last.\<close>

definition assign :: "(string \<times> json) list \<Rightarrow> (string \<times> json) list \<Rightarrow> (string \<times> json) list" where
  "assign target ps = fold (\<lambda>(k, v) obj. setProp k v obj) ps target"

subsection \<open>Messages, tools, requests\<close>

datatype role = System | User | Assistant | Tool

text \<open>
  The three shapes of message the provider puts in the conversation:
  \<^verbatim>\<open>{role, content}\<close>; the assistant's record of one tool call
  \<^verbatim>\<open>{role: 'assistant', content: null, tool_calls: [{id, type: 'function', function: {name, arguments}}]}\<close>;
  and the tool's answer \<^verbatim>\<open>{role: 'tool', tool_call_id, content}\<close>.
\<close>

datatype message =
    Message role string
  | AssistantToolCall string string string
  | ToolMessage string string

record tool =
  tool_id :: string
  description :: string
  parameters :: json
  params :: "(string \<times> json) list option"

record request =
  apiKey :: "string option"
  systemPrompt :: "string option"
  reqContext :: "string option"
  messages :: "message list option"
  model :: "string option"
  temperature :: "number option"
  maxTokens :: "number option"
  responseFormat :: "json option"
  tools :: "tool list option"

record function_declaration =
  fd_name :: string
  fd_description :: string
  fd_parameters :: json

datatype tool_choice_value = Auto

datatype response_format_value = Json_object

record payload =
  pl_model :: string
  pl_messages :: "message list"
  pl_temperature :: "number option"
  max_tokens :: "number option"
  response_format :: "response_format_value option"
  pl_tools :: "function_declaration list option"
  tool_choice :: "tool_choice_value option"

subsection \<open>Completions\<close>

record tool_call =
  call_id :: string
  fn_name :: string
  fn_arguments :: string

record completion_message =
  msg_content :: "string option"
  tool_calls :: "tool_call list option"

record choice =
  message :: "completion_message option"

text \<open>
  The token counts of a completion are counts: natural numbers, each of which may be
  absent, as may the whole \<^verbatim>\<open>usage\<close>.
\<close>

record usage_counts =
  prompt_tokens :: "nat option"
  completion_tokens :: "nat option"
  total_tokens :: "nat option"

record completion =
  choices :: "choice list"
  usage :: "usage_counts option"

subsection \<open>Tool results and the response\<close>

record tool_result =
  success :: bool
  output' :: json

record token_usage =
  prompt :: nat
  completion :: nat
  total' :: nat

record requested_call =
  name :: string
  arguments :: json

record response =
  content :: string
  resp_model :: "string option"
  tokens :: token_usage
  toolCalls :: "requested_call list option"
  toolResults :: "json list option"

subsection \<open>Errors, capabilities and the record of external calls\<close>

datatype error =
    ApiKeyRequired
  | SyntaxError
  | Thrown string

text \<open>
  What the function does to the outside is written to a trace: every call of an
  external capability, with what was passed and what came back, and every entry into
  the body of the \<^verbatim>\<open>while\<close> loop. The trace is not in the source; it is what the
  properties below count. The capabilities may depend on, and change, a state \<open>'w\<close>
  of the outside world.
\<close>

datatype event =
    Completion payload "error + completion"
  | ToolExecution string json bool "error + tool_result"
  | LoopIteration

record 'w io =
  world :: 'w
  trace :: "event list"

text \<open>
  \<open>create\<close> and \<open>executeTool\<close> return \<open>Inl\<close> when the call throws (or the
  promise is rejected). \<open>JSON_parse\<close> returns \<open>None\<close> when \<^verbatim>\<open>JSON.parse\<close> throws
  its \<^verbatim>\<open>SyntaxError\<close>. \<open>JSON_stringify\<close> returns \<open>Inl\<close> when \<^verbatim>\<open>JSON.stringify\<close>
  throws, as it does on a value that holds a BigInt.
\<close>

record 'w capabilities =
  create :: "'w \<Rightarrow> payload \<Rightarrow> (error + completion) \<times> 'w"
  executeTool :: "'w \<Rightarrow> string \<Rightarrow> json \<Rightarrow> bool \<Rightarrow> (error + tool_result) \<times> 'w"
  JSON_parse :: "string \<Rightarrow> json option"
  JSON_stringify :: "json \<Rightarrow> error + string"

definition call_create :: "'w capabilities \<Rightarrow> 'w io \<Rightarrow> payload \<Rightarrow> (error + completion) \<times> 'w io" where
  "call_create C s p =
     (case create C (world s) p of
        (res, w') \<Rightarrow> (res, \<lparr>world = w', trace = trace s @ [Completion p res]\<rparr>))"

definition call_executeTool ::
  "'w capabilities \<Rightarrow> 'w io \<Rightarrow> string \<Rightarrow> json \<Rightarrow> bool \<Rightarrow> (error + tool_result) \<times> 'w io" where
  "call_executeTool C s n a raw =
     (case executeTool C (world s) n a raw of
        (res, w') \<Rightarrow> (res, \<lparr>world = w', trace = trace s @ [ToolExecution n a raw res]\<rparr>))"

definition enter_iteration :: "'w io \<Rightarrow> 'w io" where
  "enter_iteration s = s\<lparr>trace := trace s @ [LoopIteration]\<rparr>"

subsection \<open>Building the conversation and the payload\<close>

text \<open>Lines 26-48: system prompt, context, then the caller's messages.\<close>

definition allMessages :: "request \<Rightarrow> message list" where
  "allMessages r =
     (case systemPrompt r of
        None \<Rightarrow> []
      | Some s \<Rightarrow> if s \<noteq> [] then [Message System s] else [])
     @ (case reqContext r of
          None \<Rightarrow> []
        | Some c \<Rightarrow> if c \<noteq> [] then [Message User c] else [])
     @ (case messages r of
          None \<Rightarrow> []
        | Some ms \<Rightarrow> ms)"

text \<open>Lines 50-60: the tools in the backend's format, or \<^verbatim>\<open>undefined\<close>.\<close>

definition toolDeclarations :: "request \<Rightarrow> function_declaration list option" where
  "toolDeclarations r =
     (case tools r of
        None \<Rightarrow> None
      | Some ts \<Rightarrow>
          if length ts \<noteq> 0
          then Some (map (\<lambda>t. \<lparr>fd_name = tool_id t, fd_description = description t,
                               fd_parameters = parameters t\<rparr>) ts)
          else None)"

text \<open>
  Lines 62-81. \<^verbatim>\<open>if (request.responseFormat)\<close> tests the value for truthiness:
  \<^verbatim>\<open>null\<close>, \<^verbatim>\<open>false\<close>, \<^verbatim>\<open>0\<close>, \<^verbatim>\<open>0n\<close> and the empty string are falsy.
\<close>

fun jsTruthy :: "json \<Rightarrow> bool" where
  "jsTruthy JNull = False"
| "jsTruthy (JBool b) = b"
| "jsTruthy (JNum n) = (n \<noteq> 0)"
| "jsTruthy (JStr t) = (t \<noteq> [])"
| "jsTruthy (JBigInt n) = (n \<noteq> 0)"
| "jsTruthy _ = True"


definition buildPayload :: "request \<Rightarrow> payload" where
  "buildPayload r =
     (let p0 = \<lparr>pl_model = (case model r of
                               None \<Rightarrow> ''gpt-4o''
                             | Some m \<Rightarrow> if m \<noteq> [] then m else ''gpt-4o''),
                pl_messages = allMessages r,
                pl_temperature = temperature r,
                max_tokens = maxTokens r,
                response_format = (case responseFormat r of
                                     None \<Rightarrow> None
                                   | Some f \<Rightarrow> if jsTruthy f then Some Json_object else None),
                pl_tools = None,
                tool_choice = None\<rparr>
      in case toolDeclarations r of
           None \<Rightarrow> p0
         | Some ds \<Rightarrow>
             if length ds \<noteq> 0 then p0\<lparr>pl_tools := Some ds, tool_choice := Some Auto\<rparr> else p0)"

subsection \<open>Reading a completion\<close>

text \<open>\<^verbatim>\<open>choices[0]?.message\<close>\<close>

definition firstMessage :: "completion \<Rightarrow> completion_message option" where
  "firstMessage c = (case choices c of [] \<Rightarrow> None | ch # _ \<Rightarrow> message ch)"

text \<open>\<^verbatim>\<open>choices[0]?.message?.content\<close>\<close>

definition contentOf :: "completion \<Rightarrow> string option" where
  "contentOf c = (case firstMessage c of None \<Rightarrow> None | Some m \<Rightarrow> msg_content m)"

text \<open>\<^verbatim>\<open>choices[0]?.message?.tool_calls\<close>\<close>

definition toolCallsOf :: "completion \<Rightarrow> tool_call list option" where
  "toolCallsOf c = (case firstMessage c of None \<Rightarrow> None | Some m \<Rightarrow> tool_calls m)"

text \<open>\<^verbatim>\<open>n || 0\<close> on an optional count.\<close>

definition orZero :: "nat option \<Rightarrow> nat" where
  "orZero n = (case n of None \<Rightarrow> 0 | Some k \<Rightarrow> k)"

text \<open>Lines 96-100: the counts of the first completion.\<close>

definition firstTokens :: "completion \<Rightarrow> token_usage" where
  "firstTokens c =
     (case usage c of
        None \<Rightarrow> \<lparr>prompt = 0, completion = 0, total' = 0\<rparr>
      | Some u \<Rightarrow> \<lparr>prompt = orZero (prompt_tokens u),
                   completion = orZero (completion_tokens u),
                   total' = orZero (total_tokens u)\<rparr>)"

text \<open>Lines 200-205: adding the counts of a later completion.\<close>

definition addTokens :: "token_usage \<Rightarrow> completion \<Rightarrow> token_usage" where
  "addTokens t c =
     (case usage c of
        None \<Rightarrow> t
      | Some u \<Rightarrow> \<lparr>prompt = prompt t + orZero (prompt_tokens u),
                   completion = completion t + orZero (completion_tokens u),
                   total' = total' t + orZero (total_tokens u)\<rparr>)"

text \<open>
  Lines 104-108: the \<^verbatim>\<open>map\<close> over the tool calls of the first completion. It parses
  every argument payload and is not inside a \<^verbatim>\<open>try\<close>: the first payload that does not
  parse throws out of \<^verbatim>\<open>executeRequest\<close>.
\<close>

fun parseToolCalls :: "(string \<Rightarrow> json option) \<Rightarrow> tool_call list \<Rightarrow> error + requested_call list" where
  "parseToolCalls parse [] = Inr []"
| "parseToolCalls parse (tc # tcs) =
     (case parse (fn_arguments tc) of
        None \<Rightarrow> Inl SyntaxError
      | Some a \<Rightarrow>
          (case parseToolCalls parse tcs of
             Inl e \<Rightarrow> Inl e
           | Inr rs \<Rightarrow> Inr (\<lparr>name = fn_name tc, arguments = a\<rparr> # rs)))"

subsection \<open>Processing one tool call (lines 140-181)\<close>

record 'w loop_state =
  ls_io :: "'w io"
  ls_content :: string
  ls_tokens :: token_usage
  toolCallsInResponse :: "tool_call list option"
  ls_toolResults :: "json list"
  currentMessages :: "message list"
  iterationCount :: nat

text \<open>\<^verbatim>\<open>request.tools?.find((t) => t.id === toolName)\<close>\<close>

definition findTool :: "request \<Rightarrow> string \<Rightarrow> tool option" where
  "findTool r toolName =
     (case tools r of
        None \<Rightarrow> None
      | Some ts \<Rightarrow> find (\<lambda>t. tool_id t = toolName) ts)"

text \<open>\<^verbatim>\<open>{ ...tool.params, ...toolArgs }\<close>: a fresh object, the defaults written first.\<close>

definition mergedArgs :: "tool \<Rightarrow> json \<Rightarrow> json" where
  "mergedArgs t toolArgs =
     JObj (assign (assign [] (case params t of None \<Rightarrow> [] | Some d \<Rightarrow> d))
                  (ownProperties toolArgs))"

text \<open>
  The body of the inner \<^verbatim>\<open>try\<close>. The first component is the exception thrown, if any;
  the second is the state at that point, with everything done before the throw. The
  output is pushed to \<^verbatim>\<open>toolResults\<close> (line 155) and the assistant's record to
  \<^verbatim>\<open>currentMessages\<close> (lines 158-171) before \<^verbatim>\<open>JSON.stringify\<close> is called for the
  tool's message (line 176): when that call throws, both pushes have happened and the
  tool's message is not appended.
\<close>

definition tryToolCall ::
  "'w capabilities \<Rightarrow> request \<Rightarrow> tool_call \<Rightarrow> 'w loop_state \<Rightarrow> error option \<times> 'w loop_state" where
  "tryToolCall C r toolCall s =
     (let toolName = fn_name toolCall in
      case JSON_parse C (fn_arguments toolCall) of
        None \<Rightarrow> (Some SyntaxError, s)
      | Some toolArgs \<Rightarrow>
          (case findTool r toolName of
             None \<Rightarrow> (None, s)
           | Some t \<Rightarrow>
               (case call_executeTool C (ls_io s) toolName (mergedArgs t toolArgs) True of
                  (Inl e, io') \<Rightarrow> (Some e, s\<lparr>ls_io := io'\<rparr>)
                | (Inr result, io') \<Rightarrow>
                    if \<not> success result then (None, s\<lparr>ls_io := io'\<rparr>)
                    else
                      let s1 = s\<lparr>ls_io := io',
                                 ls_toolResults := ls_toolResults s @ [output' result],
                                 currentMessages := currentMessages s @
                                   [AssistantToolCall (call_id toolCall) toolName
                                      (fn_arguments toolCall)]\<rparr>
                      in case JSON_stringify C (output' result) of
                           Inl e \<Rightarrow> (Some e, s1)
                         | Inr text \<Rightarrow>
                             (None,
                              s1\<lparr>currentMessages := currentMessages s1 @
                                   [ToolMessage (call_id toolCall) text]\<rparr>))))"

text \<open>The \<^verbatim>\<open>catch\<close> only prints the exception; the loop over the batch goes on.\<close>

definition processToolCall ::
  "'w capabilities \<Rightarrow> request \<Rightarrow> tool_call \<Rightarrow> 'w loop_state \<Rightarrow> 'w loop_state" where
  "processToolCall C r toolCall s = snd (tryToolCall C r toolCall s)"

definition processToolCalls ::
  "'w capabilities \<Rightarrow> request \<Rightarrow> tool_call list \<Rightarrow> 'w loop_state \<Rightarrow> 'w loop_state" where
  "processToolCalls C r tcs s = fold (processToolCall C r) tcs s"

subsection \<open>The loop (lines 126-212)\<close>

definition MAX_ITERATIONS :: nat where
  "MAX_ITERATIONS = 10"

text \<open>
  One pass through the body of the \<^verbatim>\<open>while\<close>, after the check for tool calls: the
  batch is processed, the next completion is requested, and content, tool calls,
  token counts and the counter are updated. An exception of the backend leaves the
  loop and the function; it is returned with the trace so far.
\<close>

definition iteration ::
  "'w capabilities \<Rightarrow> request \<Rightarrow> payload \<Rightarrow> tool_call list \<Rightarrow> 'w loop_state
     \<Rightarrow> (error \<times> 'w io) + 'w loop_state" where
  "iteration C r p tcs s =
     (let s1 = processToolCalls C r tcs (s\<lparr>ls_io := enter_iteration (ls_io s)\<rparr>);
          nextPayload = p\<lparr>pl_messages := currentMessages s1\<rparr>
      in case call_create C (ls_io s1) nextPayload of
           (Inl e, io') \<Rightarrow> Inl (e, io')
         | (Inr currentResponse, io') \<Rightarrow>
             Inr (s1\<lparr>ls_io := io',
                     ls_content := (case contentOf currentResponse of
                                      None \<Rightarrow> ls_content s1
                                    | Some t \<Rightarrow> if t \<noteq> [] then t else ls_content s1),
                     toolCallsInResponse := toolCallsOf currentResponse,
                     ls_tokens := addTokens (ls_tokens s1) currentResponse,
                     iterationCount := iterationCount s1 + 1\<rparr>))"

function loop ::
  "'w capabilities \<Rightarrow> request \<Rightarrow> payload \<Rightarrow> 'w loop_state \<Rightarrow> (error \<times> 'w io) + 'w loop_state" where
  "loop C r p s =
     (if iterationCount s < MAX_ITERATIONS then
        (case toolCallsInResponse s of
           None \<Rightarrow> Inr s
         | Some tcs \<Rightarrow>
             if length tcs = 0 then Inr s
             else (case iteration C r p tcs s of
                     Inl e \<Rightarrow> Inl e
                   | Inr s' \<Rightarrow> loop C r p s'))
      else Inr s)"
  by pat_completeness auto
termination
proof (relation "measure (\<lambda>(C, r, p, s). MAX_ITERATIONS - iterationCount s)")
  show "wf (measure (\<lambda>(C :: 'w capabilities, r :: request, p :: payload, s :: 'w loop_state).
              MAX_ITERATIONS - iterationCount s))"
    by simp
next
  fix C :: "'w capabilities" and r :: request and p :: payload
    and s s' :: "'w loop_state" and tcs :: "tool_call list"
  assume bound: "iterationCount s < MAX_ITERATIONS"
    and step: "iteration C r p tcs s = Inr s'"
  have one: "iterationCount (processToolCall C r tc t) = iterationCount t" for tc t
    by (simp add: processToolCall_def tryToolCall_def Let_def
        split: option.splits prod.splits sum.splits)
  have batch: "iterationCount (fold (processToolCall C r) xs t) = iterationCount t" for xs t
    by (induction xs arbitrary: t) (simp_all add: one)
  from step have "iterationCount s' = Suc (iterationCount s)"
    by (auto simp: iteration_def Let_def processToolCalls_def batch
        split: prod.splits sum.splits)
  with bound show "((C, r, p, s'), (C, r, p, s))
      \<in> measure (\<lambda>(C, r, p, s). MAX_ITERATIONS - iterationCount s)"
    by simp
qed

subsection \<open>executeRequest (lines 13-227)\<close>

text \<open>
  Line 15 fixes \<^verbatim>\<open>const toolExecutionMode = 'parameters-only'\<close>, with the other value
  \<^verbatim>\<open>'sync'\<close> named in its comment. The body is modelled for either value of the
  constant (\<open>executeRequestIn\<close>); \<open>executeRequest\<close> is the body at the value the
  source gives it.
\<close>

datatype execution_mode = Sync | ParametersOnly

definition toolExecutionMode :: execution_mode where
  "toolExecutionMode = ParametersOnly"

definition truthy :: "string option \<Rightarrow> bool" where
  "truthy s = (case s of None \<Rightarrow> False | Some t \<Rightarrow> t \<noteq> [])"

text \<open>
  Lines 104-108: \<^verbatim>\<open>toolCallsInResponse?.map(...) || []\<close>. An array is never falsy, so
  the empty list stands in only for an absent \<^verbatim>\<open>tool_calls\<close>.
\<close>

definition extractToolCalls :: "'w capabilities \<Rightarrow> completion \<Rightarrow> error + requested_call list" where
  "extractToolCalls C currentResponse =
     (case toolCallsOf currentResponse of
        None \<Rightarrow> Inr []
      | Some tcs \<Rightarrow> parseToolCalls (JSON_parse C) tcs)"

text \<open>
  The variables of the function after the first completion: \<^verbatim>\<open>content\<close>,
  \<^verbatim>\<open>tokens\<close> and \<^verbatim>\<open>toolCallsInResponse\<close> (lines 94-103), and \<^verbatim>\<open>toolResults\<close>,
  \<^verbatim>\<open>currentMessages\<close> and \<^verbatim>\<open>iterationCount\<close> (lines 127-129).
\<close>

definition initialState :: "request \<Rightarrow> 'w io \<Rightarrow> completion \<Rightarrow> 'w loop_state" where
  "initialState r s1 currentResponse =
     \<lparr>ls_io = s1,
      ls_content = (case contentOf currentResponse of None \<Rightarrow> [] | Some t \<Rightarrow> t),
      ls_tokens = firstTokens currentResponse,
      toolCallsInResponse = toolCallsOf currentResponse,
      ls_toolResults = [],
      currentMessages = allMessages r,
      iterationCount = 0\<rparr>"

definition executeRequestIn ::
  "execution_mode \<Rightarrow> 'w capabilities \<Rightarrow> request \<Rightarrow> 'w io \<Rightarrow> (error + response) \<times> 'w io" where
  "executeRequestIn mode C r s0 =
     (if \<not> truthy (apiKey r) then (Inl ApiKeyRequired, s0)
      else
        let payload = buildPayload r in
        case call_create C s0 payload of
          (Inl e, s1) \<Rightarrow> (Inl e, s1)
        | (Inr currentResponse, s1) \<Rightarrow>
            let st = initialState r s1 currentResponse
            in case extractToolCalls C currentResponse of
                 Inl e \<Rightarrow> (Inl e, s1)
               | Inr toolCalls0 \<Rightarrow>
                   if mode = ParametersOnly \<or> length toolCalls0 = 0 then
                     (Inr \<lparr>content = ls_content st,
                           resp_model = model r,
                           tokens = ls_tokens st,
                           toolCalls = (if length toolCalls0 > 0 then Some toolCalls0 else None),
                           toolResults = None\<rparr>,
                      s1)
                   else
                     (case loop C r payload st of
                        Inl (e, s2) \<Rightarrow> (Inl e, s2)
                      | Inr s \<Rightarrow>
                          (Inr \<lparr>content = ls_content s,
                                resp_model = model r,
                                tokens = ls_tokens s,
                                toolCalls = (if length toolCalls0 > 0 then Some toolCalls0 else None),
                                toolResults = (if length (ls_toolResults s) > 0
                                               then Some (ls_toolResults s) else None)\<rparr>,
                           ls_io s)))"

definition executeRequest ::
  "'w capabilities \<Rightarrow> request \<Rightarrow> 'w io \<Rightarrow> (error + response) \<times> 'w io" where
  "executeRequest = executeRequestIn toolExecutionMode"

section \<open>What the properties measure\<close>

text \<open>The part of the trace that a run from \<open>s0\<close> to \<open>s1\<close> added.\<close>

definition performed :: "'w io \<Rightarrow> 'w io \<Rightarrow> event list" where
  "performed s0 s1 = drop (length (trace s0)) (trace s1)"

fun isCompletion :: "event \<Rightarrow> bool" where
  "isCompletion (Completion p res) = True"
| "isCompletion _ = False"

fun isToolExecution :: "event \<Rightarrow> bool" where
  "isToolExecution (ToolExecution n a raw res) = True"
| "isToolExecution _ = False"

fun isLoopIteration :: "event \<Rightarrow> bool" where
  "isLoopIteration LoopIteration = True"
| "isLoopIteration _ = False"

definition completionInvocations :: "event list \<Rightarrow> nat" where
  "completionInvocations es = length (filter isCompletion es)"

definition toolExecutions :: "event list \<Rightarrow> nat" where
  "toolExecutions es = length (filter isToolExecution es)"

definition iterationsRun :: "event list \<Rightarrow> nat" where
  "iterationsRun es = length (filter isLoopIteration es)"

text \<open>
  One count of one completion invocation, as the specification words it: the count the
  backend reported, and 0 when the usage or the count is absent. An invocation that
  threw reported nothing.
\<close>

fun reportedCount :: "(usage_counts \<Rightarrow> nat option) \<Rightarrow> event \<Rightarrow> nat" where
  "reportedCount field (Completion p (Inr c)) =
     (case usage c of
        None \<Rightarrow> 0
      | Some u \<Rightarrow> (case field u of None \<Rightarrow> 0 | Some n \<Rightarrow> n))"
| "reportedCount field _ = 0"

definition reportedSum :: "(usage_counts \<Rightarrow> nat option) \<Rightarrow> event list \<Rightarrow> nat" where
  "reportedSum field es = sum_list (map (reportedCount field) es)"

text \<open>A tool execution that came back with a result whose \<^verbatim>\<open>success\<close> is set.\<close>

fun isSuccessfulExecution :: "event \<Rightarrow> bool" where
  "isSuccessfulExecution (ToolExecution n a raw (Inr res)) = success res"
| "isSuccessfulExecution _ = False"

definition successfulExecutions :: "event list \<Rightarrow> nat" where
  "successfulExecutions es = length (filter isSuccessfulExecution es)"

text \<open>The outputs of the successful tool executions, in the order they were made.\<close>

fun executedOutput :: "event \<Rightarrow> json list" where
  "executedOutput (ToolExecution n a raw (Inr res)) = (if success res then [output' res] else [])"
| "executedOutput _ = []"

definition executedOutputs :: "event list \<Rightarrow> json list" where
  "executedOutputs es = concat (map executedOutput es)"

section \<open>Test doubles\<close>

text \<open>
  A backend that answers from a script, one completion per invocation, and throws when
  the script is used up; a tool executor that echoes its arguments, except for the tool
  \<^verbatim>\<open>broken\<close>, which reports failure, and the tool \<^verbatim>\<open>count\<close>, which succeeds with
  the output \<^verbatim>\<open>{rows: 10n}\<close>; a parser that knows three payloads and rejects
  everything else, as \<^verbatim>\<open>JSON.parse\<close> rejects \<^verbatim>\<open>{\<close>; a serialiser that throws on a
  value that holds a BigInt, as \<^verbatim>\<open>JSON.stringify\<close> does.
\<close>

definition stubParse :: "string \<Rightarrow> json option" where
  "stubParse s =
     (if s = ''{}'' then Some (JObj [])
      else if s = ''{\"y\":9}'' then Some (JObj [(''y'', JNum 9)])
      else if s = ''7'' then Some (JNum 7)
      else None)"

fun holdsBigInt :: "json \<Rightarrow> bool" where
  "holdsBigInt (JBigInt n) = True"
| "holdsBigInt (JArr xs) = list_ex holdsBigInt xs"
| "holdsBigInt (JObj ps) = list_ex holdsBigInt (map snd ps)"
| "holdsBigInt _ = False"

definition stubStringify :: "json \<Rightarrow> error + string" where
  "stubStringify j =
     (if holdsBigInt j then Inl (Thrown ''TypeError: Do not know how to serialize a BigInt'')
      else case j of JObj [] \<Rightarrow> Inr ''{}'' | _ \<Rightarrow> Inr ''[output]'')"

definition scripted :: "completion list capabilities" where
  "scripted =
     \<lparr>create = (\<lambda>w p. case w of
                         [] \<Rightarrow> (Inl (Thrown ''script used up''), [])
                       | c # cs \<Rightarrow> (Inr c, cs)),
      executeTool = (\<lambda>w n a raw.
                       if n = ''broken'' then (Inr \<lparr>success = False, output' = JNull\<rparr>, w)
                       else if n = ''count''
                       then (Inr \<lparr>success = True, output' = JObj [(''rows'', JBigInt 10)]\<rparr>, w)
                       else (Inr \<lparr>success = True, output' = a\<rparr>, w)),
      JSON_parse = stubParse,
      JSON_stringify = stubStringify\<rparr>"

definition fixedUsage :: usage_counts where
  "fixedUsage = \<lparr>prompt_tokens = Some 10, completion_tokens = Some 5, total_tokens = Some 15\<rparr>"

definition asksFor :: "string \<Rightarrow> string \<Rightarrow> completion" where
  "asksFor n a =
     \<lparr>choices = [\<lparr>message = Some \<lparr>msg_content = None,
                                   tool_calls = Some [\<lparr>call_id = ''call_1'', fn_name = n,
                                                        fn_arguments = a\<rparr>]\<rparr>\<rparr>],
      usage = Some fixedUsage\<rparr>"

definition says :: "string \<Rightarrow> completion" where
  "says t =
     \<lparr>choices = [\<lparr>message = Some \<lparr>msg_content = Some t, tool_calls = None\<rparr>\<rparr>],
      usage = Some fixedUsage\<rparr>"

definition twoCalls :: completion where
  "twoCalls =
     \<lparr>choices = [\<lparr>message = Some \<lparr>msg_content = Some ''calling'',
                                   tool_calls = Some [\<lparr>call_id = ''call_1'', fn_name = ''lookup'',
                                                        fn_arguments = ''{}''\<rparr>,
                                                      \<lparr>call_id = ''call_2'', fn_name = ''broken'',
                                                        fn_arguments = ''7''\<rparr>]\<rparr>\<rparr>],
      usage = None\<rparr>"

definition lookupTool :: tool where
  "lookupTool =
     \<lparr>tool_id = ''lookup'', description = ''looks a value up'', parameters = JObj [],
      params = Some [(''x'', JNum 1), (''y'', JNum 2)]\<rparr>"



definition brokenTool :: tool where
  "brokenTool =
     \<lparr>tool_id = ''broken'', description = ''always fails'', parameters = JObj [],
      params = None\<rparr>"

definition exampleRequest :: request where
  "exampleRequest =
     \<lparr>apiKey = Some ''sk-test'', systemPrompt = Some ''be brief'', reqContext = None,
      messages = Some [Message User ''hello''], model = Some ''gpt-4o'', temperature = None,
      maxTokens = None, responseFormat = None, tools = Some [lookupTool, brokenTool]\<rparr>"

definition insistent :: "completion list" where
  "insistent = [asksFor ''lookup'' ''{}'', asksFor ''lookup'' ''{}'', asksFor ''lookup'' ''{}'',
     asksFor ''lookup'' ''{}'', asksFor ''lookup'' ''{}'', asksFor ''lookup'' ''{}'',
     asksFor ''lookup'' ''{}'', asksFor ''lookup'' ''{}'', asksFor ''lookup'' ''{}'',
     asksFor ''lookup'' ''{}'', asksFor ''lookup'' ''{}'', asksFor ''lookup'' ''{}'']"

definition threeTurns :: "completion list" where
  "threeTurns = [asksFor ''lookup'' ''{}'', asksFor ''broken'' ''{}'', says ''done'']"

definition start :: "completion list \<Rightarrow> completion list io" where
  "start script = \<lparr>world = script, trace = []\<rparr>"

definition lookupCall :: "string \<Rightarrow> tool_call" where
  "lookupCall a = \<lparr>call_id = ''call_7'', fn_name = ''lookup'', fn_arguments = a\<rparr>"

definition idle :: "completion list loop_state" where
  "idle = initialState exampleRequest (start []) (says ''ready'')"

section \<open>Auxiliary facts\<close>

subsection \<open>Counting on the trace\<close>

lemma performed_self [simp]: "performed s s = []"
  by (simp add: performed_def)

lemma performed_append: "trace s1 = trace s0 @ es \<Longrightarrow> performed s0 s1 = es"
  by (simp add: performed_def)

lemma completionInvocations_simps [simp]:
  "completionInvocations [] = 0"
  "completionInvocations (e # es) = (if isCompletion e then 1 else 0) + completionInvocations es"
  "completionInvocations (xs @ ys) = completionInvocations xs + completionInvocations ys"
  by (simp_all add: completionInvocations_def)

lemma toolExecutions_simps [simp]:
  "toolExecutions [] = 0"
  "toolExecutions (e # es) = (if isToolExecution e then 1 else 0) + toolExecutions es"
  "toolExecutions (xs @ ys) = toolExecutions xs + toolExecutions ys"
  by (simp_all add: toolExecutions_def)

lemma iterationsRun_simps [simp]:
  "iterationsRun [] = 0"
  "iterationsRun (e # es) = (if isLoopIteration e then 1 else 0) + iterationsRun es"
  "iterationsRun (xs @ ys) = iterationsRun xs + iterationsRun ys"
  by (simp_all add: iterationsRun_def)

lemma reportedSum_simps [simp]:
  "reportedSum f [] = 0"
  "reportedSum f (e # es) = reportedCount f e + reportedSum f es"
  "reportedSum f (xs @ ys) = reportedSum f xs + reportedSum f ys"
  by (simp_all add: reportedSum_def)

lemma successfulExecutions_simps [simp]:
  "successfulExecutions [] = 0"
  "successfulExecutions (e # es) = (if isSuccessfulExecution e then 1 else 0) + successfulExecutions es"
  "successfulExecutions (xs @ ys) = successfulExecutions xs + successfulExecutions ys"
  by (simp_all add: successfulExecutions_def)

lemma executedOutputs_simps [simp]:
  "executedOutputs [] = []"
  "executedOutputs (e # es) = executedOutput e @ executedOutputs es"
  "executedOutputs (xs @ ys) = executedOutputs xs @ executedOutputs ys"
  by (simp_all add: executedOutputs_def)

lemma executedOutput_unsuccessful:
  "\<not> isSuccessfulExecution e \<Longrightarrow> executedOutput e = []"
  by (induction e rule: executedOutput.induct) auto

lemma call_create_trace:
  "call_create C s p = (res, s') \<Longrightarrow> trace s' = trace s @ [Completion p res]"
  by (auto simp: call_create_def split: prod.splits)

lemma call_executeTool_trace:
  "call_executeTool C s n a raw = (res, s') \<Longrightarrow> trace s' = trace s @ [ToolExecution n a raw res]"
  by (auto simp: call_executeTool_def split: prod.splits)

lemma tryToolCall_cases:
  "tryToolCall C r tc s = (x, s') \<Longrightarrow>
     (s' = s \<and> (JSON_parse C (fn_arguments tc) = None \<or> findTool r (fn_name tc) = None))
   \<or> (\<exists>a t res io'. JSON_parse C (fn_arguments tc) = Some a \<and> findTool r (fn_name tc) = Some t
         \<and> call_executeTool C (ls_io s) (fn_name tc) (mergedArgs t a) True = (res, io')
         \<and> ((\<exists>result. res = Inr result \<and> success result
               \<and> ls_io s' = io'
               \<and> ls_toolResults s' = ls_toolResults s @ [output' result])
            \<or> (\<not> isSuccessfulExecution (ToolExecution (fn_name tc) (mergedArgs t a) True res)
                \<and> s' = s\<lparr>ls_io := io'\<rparr>)))"
  by (auto simp: tryToolCall_def Let_def split: option.splits prod.splits sum.splits if_splits)

lemma processToolCall_summary:
  "\<exists>es. trace (ls_io (processToolCall C r tc s)) = trace (ls_io s) @ es
      \<and> list_all isToolExecution es
      \<and> ls_toolResults (processToolCall C r tc s) = ls_toolResults s @ executedOutputs es"
proof -
  obtain x s' where run: "tryToolCall C r tc s = (x, s')"
    by (cases "tryToolCall C r tc s")
  then have s': "processToolCall C r tc s = s'"
    by (simp add: processToolCall_def)
  from tryToolCall_cases [OF run] consider
    (skipped) "s' = s"
  | (executed) a t res io' result where
      "call_executeTool C (ls_io s) (fn_name tc) (mergedArgs t a) True = (res, io')"
      "res = Inr result" "success result"
      "ls_io s' = io'" "ls_toolResults s' = ls_toolResults s @ [output' result]"
  | (failed) a t res io' where
      "call_executeTool C (ls_io s) (fn_name tc) (mergedArgs t a) True = (res, io')"
      "\<not> isSuccessfulExecution (ToolExecution (fn_name tc) (mergedArgs t a) True res)"
      "s' = s\<lparr>ls_io := io'\<rparr>"
    by blast
  then have "\<exists>es. trace (ls_io s') = trace (ls_io s) @ es
      \<and> list_all isToolExecution es
      \<and> ls_toolResults s' = ls_toolResults s @ executedOutputs es"
  proof cases
    case skipped
    then show ?thesis by (intro exI [of _ "[]"]) simp
  next
    case executed
    then show ?thesis
      by (intro exI [of _ "[ToolExecution (fn_name tc) (mergedArgs t a) True res]"])
         (simp add: call_executeTool_trace)
  next
    case failed
    then show ?thesis
      by (intro exI [of _ "[ToolExecution (fn_name tc) (mergedArgs t a) True res]"])
         (simp add: call_executeTool_trace executedOutput_unsuccessful)
  qed
  then show ?thesis by (simp add: s')
qed

lemma processToolCall_unchanged:
  "ls_tokens (processToolCall C r tc s) = ls_tokens s"
  "ls_content (processToolCall C r tc s) = ls_content s"
  "toolCallsInResponse (processToolCall C r tc s) = toolCallsInResponse s"
  "iterationCount (processToolCall C r tc s) = iterationCount s"
  by (simp_all add: processToolCall_def tryToolCall_def Let_def
      split: option.splits prod.splits sum.splits)

lemma processToolCalls_unchanged:
  "ls_tokens (processToolCalls C r tcs s) = ls_tokens s"
  "ls_content (processToolCalls C r tcs s) = ls_content s"
  "toolCallsInResponse (processToolCalls C r tcs s) = toolCallsInResponse s"
  "iterationCount (processToolCalls C r tcs s) = iterationCount s"
  unfolding processToolCalls_def
  by (induction tcs arbitrary: s; simp add: processToolCall_unchanged)+

lemma processToolCalls_summary:
  "\<exists>es. trace (ls_io (processToolCalls C r tcs s)) = trace (ls_io s) @ es
      \<and> list_all isToolExecution es
      \<and> ls_toolResults (processToolCalls C r tcs s) = ls_toolResults s @ executedOutputs es"
proof (induction tcs arbitrary: s)
  case Nil
  show ?case by (intro exI [of _ "[]"]) (simp add: processToolCalls_def)
next
  case (Cons tc tcs)
  obtain es1 where one:
    "trace (ls_io (processToolCall C r tc s)) = trace (ls_io s) @ es1"
    "list_all isToolExecution es1"
    "ls_toolResults (processToolCall C r tc s) = ls_toolResults s @ executedOutputs es1"
    using processToolCall_summary [of C r tc s] by blast
  obtain es2 where rest:
    "trace (ls_io (processToolCalls C r tcs (processToolCall C r tc s))) =
       trace (ls_io (processToolCall C r tc s)) @ es2"
    "list_all isToolExecution es2"
    "ls_toolResults (processToolCalls C r tcs (processToolCall C r tc s)) =
       ls_toolResults (processToolCall C r tc s) @ executedOutputs es2"
    using Cons.IH [of "processToolCall C r tc s"] by blast
  have unfold: "processToolCalls C r (tc # tcs) s =
      processToolCalls C r tcs (processToolCall C r tc s)"
    by (simp add: processToolCalls_def)
  show ?case
    unfolding unfold
    by (intro exI [of _ "es1 @ es2"]) (simp add: one rest)
qed

lemma isToolExecution_counts:
  "list_all isToolExecution es \<Longrightarrow> completionInvocations es = 0 \<and> iterationsRun es = 0"
  by (induction es) (auto elim: isToolExecution.elims)

lemma isToolExecution_reported:
  "list_all isToolExecution es \<Longrightarrow> reportedSum f es = 0"
  by (induction es) (auto elim: isToolExecution.elims)


lemma addTokens_counts:
  "prompt (addTokens t c) = prompt t + reportedCount prompt_tokens (Completion q (Inr c))"
  "completion (addTokens t c) = completion t + reportedCount completion_tokens (Completion q (Inr c))"
  "total' (addTokens t c) = total' t + reportedCount total_tokens (Completion q (Inr c))"
  by (simp_all add: addTokens_def orZero_def split: option.splits)

lemma firstTokens_counts:
  "prompt (firstTokens c) = reportedCount prompt_tokens (Completion q (Inr c))"
  "completion (firstTokens c) = reportedCount completion_tokens (Completion q (Inr c))"
  "total' (firstTokens c) = reportedCount total_tokens (Completion q (Inr c))"
  by (simp_all add: firstTokens_def orZero_def split: option.splits)

lemma iteration_Inr:
  assumes "iteration C r p tcs s = Inr s'"
  shows "\<exists>es c ms. trace (ls_io s') =
            trace (ls_io s) @ LoopIteration # es @ [Completion (p\<lparr>pl_messages := ms\<rparr>) (Inr c)]
         \<and> list_all isToolExecution es
         \<and> ls_tokens s' = addTokens (ls_tokens s) c
         \<and> iterationCount s' = Suc (iterationCount s)
         \<and> ls_toolResults s' = ls_toolResults s @ executedOutputs es"
proof -
  define s1 where "s1 = processToolCalls C r tcs (s\<lparr>ls_io := enter_iteration (ls_io s)\<rparr>)"
  obtain es where es:
    "trace (ls_io s1) = trace (ls_io s) @ LoopIteration # es" "list_all isToolExecution es"
    "ls_toolResults s1 = ls_toolResults s @ executedOutputs es"
    using processToolCalls_summary [of C r tcs "s\<lparr>ls_io := enter_iteration (ls_io s)\<rparr>"]
    by (auto simp: s1_def enter_iteration_def)
  obtain res io' where cc:
    "call_create C (ls_io s1) (p\<lparr>pl_messages := currentMessages s1\<rparr>) = (res, io')"
    by (cases "call_create C (ls_io s1) (p\<lparr>pl_messages := currentMessages s1\<rparr>)")
  from assms cc obtain c where c: "res = Inr c"
    and s': "s' = s1\<lparr>ls_io := io',
                     ls_content := (case contentOf c of
                                      None \<Rightarrow> ls_content s1
                                    | Some t \<Rightarrow> if t \<noteq> [] then t else ls_content s1),
                     toolCallsInResponse := toolCallsOf c,
                     ls_tokens := addTokens (ls_tokens s1) c,
                     iterationCount := iterationCount s1 + 1\<rparr>"
    by (cases res) (auto simp: iteration_def Let_def s1_def [symmetric])
  have "trace io' = trace (ls_io s1) @ [Completion (p\<lparr>pl_messages := currentMessages s1\<rparr>) (Inr c)]"
    using call_create_trace [OF cc] c by simp
  then show ?thesis
    using es s'
    by (intro exI [of _ es] exI [of _ c] exI [of _ "currentMessages s1"])
       (simp add: s1_def processToolCalls_unchanged)
qed

lemma iteration_Inl:
  assumes "iteration C r p tcs s = Inl (e, io')"
  shows "\<exists>es ms. trace io' =
            trace (ls_io s) @ LoopIteration # es @ [Completion (p\<lparr>pl_messages := ms\<rparr>) (Inl e)]
         \<and> list_all isToolExecution es"
proof -
  define s1 where "s1 = processToolCalls C r tcs (s\<lparr>ls_io := enter_iteration (ls_io s)\<rparr>)"
  obtain es where es:
    "trace (ls_io s1) = trace (ls_io s) @ LoopIteration # es" "list_all isToolExecution es"
    using processToolCalls_summary [of C r tcs "s\<lparr>ls_io := enter_iteration (ls_io s)\<rparr>"]
    by (auto simp: s1_def enter_iteration_def)
  obtain res io1 where cc:
    "call_create C (ls_io s1) (p\<lparr>pl_messages := currentMessages s1\<rparr>) = (res, io1)"
    by (cases "call_create C (ls_io s1) (p\<lparr>pl_messages := currentMessages s1\<rparr>)")
  from assms cc have "res = Inl e" and "io1 = io'"
    by (cases res; simp add: iteration_def Let_def s1_def [symmetric])+
  then have "trace io' = trace (ls_io s1) @ [Completion (p\<lparr>pl_messages := currentMessages s1\<rparr>) (Inl e)]"
    using call_create_trace [OF cc] by simp
  then show ?thesis
    using es by (intro exI [of _ es] exI [of _ "currentMessages s1"]) simp
qed

declare loop.simps [simp del]

text \<open>What a run of the loop adds to the trace, when it ends normally.\<close>

lemma loop_Inr:
  "loop C r p s = Inr s' \<Longrightarrow>
     \<exists>es. trace (ls_io s') = trace (ls_io s) @ es
        \<and> completionInvocations es = iterationsRun es
        \<and> iterationCount s' = iterationCount s + iterationsRun es
        \<and> (iterationCount s \<le> MAX_ITERATIONS \<longrightarrow> iterationCount s' \<le> MAX_ITERATIONS)
        \<and> prompt (ls_tokens s') = prompt (ls_tokens s) + reportedSum prompt_tokens es
        \<and> completion (ls_tokens s') = completion (ls_tokens s) + reportedSum completion_tokens es
        \<and> total' (ls_tokens s') = total' (ls_tokens s) + reportedSum total_tokens es
        \<and> (\<forall>q x. Completion q x \<in> set es \<longrightarrow>
              pl_tools q = pl_tools p \<and> tool_choice q = tool_choice p)
        \<and> ls_toolResults s' = ls_toolResults s @ executedOutputs es
        \<and> (es \<noteq> [] \<longrightarrow> (\<exists>q c. last es = Completion q (Inr c)))"
proof (induction C r p s rule: loop.induct)
  case (1 C r p s)
  show ?case
  proof (cases "iterationCount s < MAX_ITERATIONS
      \<and> (\<exists>tcs. toolCallsInResponse s = Some tcs \<and> length tcs \<noteq> 0)")
    case False
    with "1.prems" have "s' = s"
      by (auto simp: loop.simps [of C r p s] split: option.splits if_splits)
    then show ?thesis by (intro exI [of _ "[]"]) simp
  next
    case True
    then obtain tcs where tcs: "iterationCount s < MAX_ITERATIONS"
      "toolCallsInResponse s = Some tcs" "length tcs \<noteq> 0"
      by blast
    with "1.prems" obtain s1 where step: "iteration C r p tcs s = Inr s1"
      and rest: "loop C r p s1 = Inr s'"
      by (auto simp: loop.simps [of C r p s] split: sum.splits)
    obtain es1 c ms where one:
      "trace (ls_io s1) =
         trace (ls_io s) @ LoopIteration # es1 @ [Completion (p\<lparr>pl_messages := ms\<rparr>) (Inr c)]"
      "list_all isToolExecution es1"
      "ls_tokens s1 = addTokens (ls_tokens s) c"
      "iterationCount s1 = Suc (iterationCount s)"
      "ls_toolResults s1 = ls_toolResults s @ executedOutputs es1"
      using iteration_Inr [OF step] by blast
    obtain es2 where two:
      "trace (ls_io s') = trace (ls_io s1) @ es2"
      "completionInvocations es2 = iterationsRun es2"
      "iterationCount s' = iterationCount s1 + iterationsRun es2"
      "iterationCount s1 \<le> MAX_ITERATIONS \<longrightarrow> iterationCount s' \<le> MAX_ITERATIONS"
      "prompt (ls_tokens s') = prompt (ls_tokens s1) + reportedSum prompt_tokens es2"
      "completion (ls_tokens s') = completion (ls_tokens s1) + reportedSum completion_tokens es2"
      "total' (ls_tokens s') = total' (ls_tokens s1) + reportedSum total_tokens es2"
      "\<forall>q x. Completion q x \<in> set es2 \<longrightarrow>
              pl_tools q = pl_tools p \<and> tool_choice q = tool_choice p"
      "ls_toolResults s' = ls_toolResults s1 @ executedOutputs es2"
      "es2 \<noteq> [] \<longrightarrow> (\<exists>q c. last es2 = Completion q (Inr c))"
      using "1.IH" [OF tcs(1) tcs(2) tcs(3) step rest] by blast
    let ?es = "LoopIteration # es1 @ [Completion (p\<lparr>pl_messages := ms\<rparr>) (Inr c)] @ es2"
    have tools1: "\<forall>q x. Completion q x \<in> set es1 \<longrightarrow> False"
      using one(2) by (auto simp: list_all_iff)
    show ?thesis
    proof (intro exI [of _ ?es] conjI)
      show "trace (ls_io s') = trace (ls_io s) @ ?es"
        by (simp add: one two)
      show "completionInvocations ?es = iterationsRun ?es"
        using isToolExecution_counts [OF one(2)] two(2) by simp
      show "iterationCount s' = iterationCount s + iterationsRun ?es"
        using isToolExecution_counts [OF one(2)] two(3) one(4) by simp
      show "iterationCount s \<le> MAX_ITERATIONS \<longrightarrow> iterationCount s' \<le> MAX_ITERATIONS"
        using tcs(1) one(4) two(4) by simp
      show "prompt (ls_tokens s') = prompt (ls_tokens s) + reportedSum prompt_tokens ?es"
        using isToolExecution_reported [OF one(2)] two(5) one(3)
        by (simp add: addTokens_counts [where q = "p\<lparr>pl_messages := ms\<rparr>"])
      show "completion (ls_tokens s') = completion (ls_tokens s) + reportedSum completion_tokens ?es"
        using isToolExecution_reported [OF one(2)] two(6) one(3)
        by (simp add: addTokens_counts [where q = "p\<lparr>pl_messages := ms\<rparr>"])
      show "total' (ls_tokens s') = total' (ls_tokens s) + reportedSum total_tokens ?es"
        using isToolExecution_reported [OF one(2)] two(7) one(3)
        by (simp add: addTokens_counts [where q = "p\<lparr>pl_messages := ms\<rparr>"])
      show "\<forall>q x. Completion q x \<in> set ?es \<longrightarrow>
              pl_tools q = pl_tools p \<and> tool_choice q = tool_choice p"
        using tools1 two(8) by auto
      show "ls_toolResults s' = ls_toolResults s @ executedOutputs ?es"
        using one(5) two(9) by simp
      show "?es \<noteq> [] \<longrightarrow> (\<exists>q c. last ?es = Completion q (Inr c))"
        using two(10) by (cases "es2 = []") simp_all
    qed
  qed
qed


lemma loop_Inl:
  "loop C r p s = Inl (e, io') \<Longrightarrow>
     \<exists>es q. trace io' = trace (ls_io s) @ es @ [Completion q (Inl e)]
        \<and> completionInvocations es + 1 = iterationsRun es
        \<and> iterationCount s + iterationsRun es \<le> MAX_ITERATIONS
        \<and> pl_tools q = pl_tools p \<and> tool_choice q = tool_choice p
        \<and> (\<forall>q x. Completion q x \<in> set es \<longrightarrow>
              pl_tools q = pl_tools p \<and> tool_choice q = tool_choice p)"
proof (induction C r p s rule: loop.induct)
  case (1 C r p s)
  from "1.prems" obtain tcs where tcs: "iterationCount s < MAX_ITERATIONS"
    "toolCallsInResponse s = Some tcs" "length tcs \<noteq> 0"
    by (auto simp: loop.simps [of C r p s] split: option.splits if_splits)
  show ?case
  proof (cases "iteration C r p tcs s")
    case (Inl x)
    with "1.prems" tcs have x: "x = (e, io')"
      by (simp add: loop.simps [of C r p s])
    obtain es ms where one:
      "trace io' =
         trace (ls_io s) @ LoopIteration # es @ [Completion (p\<lparr>pl_messages := ms\<rparr>) (Inl e)]"
      "list_all isToolExecution es"
      using iteration_Inl [OF Inl [unfolded x]] by blast
    have none: "\<forall>q x. Completion q x \<in> set es \<longrightarrow> False"
      using one(2) by (auto simp: list_all_iff)
    show ?thesis
      using one(1) isToolExecution_counts [OF one(2)] tcs(1) none
      by (intro exI [of _ "LoopIteration # es"] exI [of _ "p\<lparr>pl_messages := ms\<rparr>"]) auto
  next
    case (Inr s1)
    with "1.prems" tcs have rest: "loop C r p s1 = Inl (e, io')"
      by (simp add: loop.simps [of C r p s])
    obtain es1 c ms where one:
      "trace (ls_io s1) =
         trace (ls_io s) @ LoopIteration # es1 @ [Completion (p\<lparr>pl_messages := ms\<rparr>) (Inr c)]"
      "list_all isToolExecution es1"
      "iterationCount s1 = Suc (iterationCount s)"
      using iteration_Inr [OF Inr] by blast
    obtain es2 q where two:
      "trace io' = trace (ls_io s1) @ es2 @ [Completion q (Inl e)]"
      "completionInvocations es2 + 1 = iterationsRun es2"
      "iterationCount s1 + iterationsRun es2 \<le> MAX_ITERATIONS"
      "pl_tools q = pl_tools p" "tool_choice q = tool_choice p"
      "\<forall>q x. Completion q x \<in> set es2 \<longrightarrow>
              pl_tools q = pl_tools p \<and> tool_choice q = tool_choice p"
      using "1.IH" [OF tcs(1) tcs(2) tcs(3) Inr rest] by blast
    let ?es = "LoopIteration # es1 @ [Completion (p\<lparr>pl_messages := ms\<rparr>) (Inr c)] @ es2"
    have none: "\<forall>q x. Completion q x \<in> set es1 \<longrightarrow> False"
      using one(2) by (auto simp: list_all_iff)
    show ?thesis
    proof (intro exI [of _ ?es] exI [of _ q] conjI)
      show "trace io' = trace (ls_io s) @ ?es @ [Completion q (Inl e)]"
        by (simp add: one two)
      show "completionInvocations ?es + 1 = iterationsRun ?es"
        using isToolExecution_counts [OF one(2)] two(2) by simp
      show "iterationCount s + iterationsRun ?es \<le> MAX_ITERATIONS"
        using isToolExecution_counts [OF one(2)] two(3) one(3) by simp
      show "pl_tools q = pl_tools p" "tool_choice q = tool_choice p"
        by (rule two)+
      show "\<forall>q x. Completion q x \<in> set ?es \<longrightarrow>
              pl_tools q = pl_tools p \<and> tool_choice q = tool_choice p"
        using none two(6) by auto
    qed
  qed
qed

lemma executeRequestIn_cases:
  assumes "executeRequestIn mode C r s0 = (res, s1)" and "truthy (apiKey r)"
  obtains
    (backend_failed) e where
      "call_create C s0 (buildPayload r) = (Inl e, s1)" "res = Inl e"
  | (parse_failed) c e where
      "call_create C s0 (buildPayload r) = (Inr c, s1)"
      "extractToolCalls C c = Inl e" "res = Inl e"
  | (immediate) c toolCalls0 where
      "call_create C s0 (buildPayload r) = (Inr c, s1)"
      "extractToolCalls C c = Inr toolCalls0"
      "mode = ParametersOnly \<or> toolCalls0 = []"
      "res = Inr \<lparr>content = ls_content (initialState r s1 c),
                   resp_model = model r,
                   tokens = firstTokens c,
                   toolCalls = (if toolCalls0 \<noteq> [] then Some toolCalls0 else None),
                   toolResults = None\<rparr>"
  | (loop_failed) c toolCalls0 sa e where
      "call_create C s0 (buildPayload r) = (Inr c, sa)"
      "extractToolCalls C c = Inr toolCalls0"
      "mode = Sync" "toolCalls0 \<noteq> []"
      "loop C r (buildPayload r) (initialState r sa c) = Inl (e, s1)" "res = Inl e"
  | (loop_done) c toolCalls0 sa s where
      "call_create C s0 (buildPayload r) = (Inr c, sa)"
      "extractToolCalls C c = Inr toolCalls0"
      "mode = Sync" "toolCalls0 \<noteq> []"
      "loop C r (buildPayload r) (initialState r sa c) = Inr s" "s1 = ls_io s"
      "res = Inr \<lparr>content = ls_content s,
                   resp_model = model r,
                   tokens = ls_tokens s,
                   toolCalls = Some toolCalls0,
                   toolResults = (if ls_toolResults s \<noteq> []
                                  then Some (ls_toolResults s) else None)\<rparr>"
proof -
  obtain x sa where cc: "call_create C s0 (buildPayload r) = (x, sa)"
    by (cases "call_create C s0 (buildPayload r)")
  show thesis
  proof (cases x)
    case (Inl e)
    with assms cc have "s1 = sa" "res = Inl e"
      by (auto simp: executeRequestIn_def Let_def)
    with cc Inl show thesis
      by (intro backend_failed) auto
  next
    case c: (Inr c)
    note cc' = cc [unfolded c]
    show thesis
    proof (cases "extractToolCalls C c")
      case (Inl e)
      with assms cc' have "s1 = sa" "res = Inl e"
        by (auto simp: executeRequestIn_def Let_def)
      with cc' Inl show thesis
        by (intro parse_failed) auto
    next
      case tc: (Inr toolCalls0)
      show thesis
      proof (cases "mode = ParametersOnly \<or> toolCalls0 = []")
        case True
        with assms cc' tc have "s1 = sa"
          "res = Inr \<lparr>content = ls_content (initialState r s1 c),
                   resp_model = model r,
                   tokens = firstTokens c,
                   toolCalls = (if toolCalls0 \<noteq> [] then Some toolCalls0 else None),
                   toolResults = None\<rparr>"
          by (auto simp: executeRequestIn_def Let_def initialState_def)
        with cc' tc True show thesis
          by (intro immediate) auto
      next
        case False
        then have mode: "mode = Sync" "toolCalls0 \<noteq> []"
          by (cases mode; simp)+
        show thesis
        proof (cases "loop C r (buildPayload r) (initialState r sa c)")
          case (Inl y)
          obtain e s2 where y: "y = (e, s2)" by (cases y)
          with assms cc' tc mode Inl have "s1 = s2" "res = Inl e"
            by (auto simp: executeRequestIn_def Let_def)
          with Inl y show thesis
            by (intro loop_failed [OF cc' tc mode]) auto
        next
          case (Inr s)
          with assms cc' tc mode have "s1 = ls_io s"
            "res = Inr \<lparr>content = ls_content s,
                   resp_model = model r,
                   tokens = ls_tokens s,
                   toolCalls = Some toolCalls0,
                   toolResults = (if ls_toolResults s \<noteq> []
                                  then Some (ls_toolResults s) else None)\<rparr>"
            by (auto simp: executeRequestIn_def Let_def)
          with Inr show thesis
            by (intro loop_done [OF cc' tc mode]) auto
        qed
      qed
    qed
  qed
qed

lemma initialState_simps [simp]:
  "ls_io (initialState r sa c) = sa"
  "ls_tokens (initialState r sa c) = firstTokens c"
  "ls_toolResults (initialState r sa c) = []"
  "iterationCount (initialState r sa c) = 0"
  "currentMessages (initialState r sa c) = allMessages r"
  "toolCallsInResponse (initialState r sa c) = toolCallsOf c"
  by (simp_all add: initialState_def)

text \<open>
  What a run with a credential adds to the trace and what it returns: the first
  completion, then whatever the loop did.
\<close>

lemma executeRequestIn_summary:
  assumes run: "executeRequestIn mode C r s0 = (res, s1)" and key: "truthy (apiKey r)"
  shows "\<exists>x rest. trace s1 = trace s0 @ Completion (buildPayload r) x # rest
     \<and> completionInvocations rest = iterationsRun rest
     \<and> iterationsRun rest \<le> MAX_ITERATIONS
     \<and> (mode = ParametersOnly \<longrightarrow> rest = [])
     \<and> (\<forall>q y. Completion q y \<in> set rest \<longrightarrow>
           pl_tools q = pl_tools (buildPayload r) \<and> tool_choice q = tool_choice (buildPayload r))
     \<and> (\<forall>resp. res = Inr resp \<longrightarrow>
           (\<exists>c toolCalls0. x = Inr c \<and> extractToolCalls C c = Inr toolCalls0
              \<and> toolCalls resp = (if toolCalls0 \<noteq> [] then Some toolCalls0 else None)
              \<and> toolResults resp =
                  (if executedOutputs rest \<noteq> [] then Some (executedOutputs rest) else None)
              \<and> prompt (tokens resp) =
                  reportedSum prompt_tokens (Completion (buildPayload r) x # rest)
              \<and> completion (tokens resp) =
                  reportedSum completion_tokens (Completion (buildPayload r) x # rest)
              \<and> total' (tokens resp) =
                  reportedSum total_tokens (Completion (buildPayload r) x # rest)
              \<and> resp_model resp = model r))
     \<and> (\<forall>e. res = Inl e \<longrightarrow>
           (\<exists>q. last (Completion (buildPayload r) x # rest) = Completion q (Inl e))
           \<or> (\<exists>c. x = Inr c \<and> rest = [] \<and> extractToolCalls C c = Inl e))"
  (is "\<exists>x rest. ?T x rest \<and> ?N rest \<and> ?B rest \<and> ?M rest \<and> ?P rest \<and> ?R x rest \<and> ?E x rest")
  using run key
proof (cases rule: executeRequestIn_cases)
  case (backend_failed e)
  have "?T (Inl e) []" using backend_failed(1) by (simp add: call_create_trace)
  moreover have "?R (Inl e) []" using backend_failed(2) by simp
  moreover have "?E (Inl e) []" using backend_failed(2) by simp
  ultimately have "?T (Inl e) [] \<and> ?N [] \<and> ?B [] \<and> ?M [] \<and> ?P [] \<and> ?R (Inl e) [] \<and> ?E (Inl e) []"
    by simp
  then show ?thesis by blast
next
  case (parse_failed c e)
  have "?T (Inr c) []" using parse_failed(1) by (simp add: call_create_trace)
  moreover have "?R (Inr c) []" using parse_failed(3) by simp
  moreover have "?E (Inr c) []" using parse_failed(2,3) by simp
  ultimately have "?T (Inr c) [] \<and> ?N [] \<and> ?B [] \<and> ?M [] \<and> ?P [] \<and> ?R (Inr c) [] \<and> ?E (Inr c) []"
    by simp
  then show ?thesis by blast
next
  case (immediate c toolCalls0)
  have "?T (Inr c) []" using immediate(1) by (simp add: call_create_trace)
  moreover have "?R (Inr c) []"
    using immediate(2,4) by (simp add: firstTokens_counts [where q = "buildPayload r"])
  moreover have "?E (Inr c) []" using immediate(4) by simp
  ultimately have "?T (Inr c) [] \<and> ?N [] \<and> ?B [] \<and> ?M [] \<and> ?P [] \<and> ?R (Inr c) [] \<and> ?E (Inr c) []"
    by simp
  then show ?thesis by blast
next
  case (loop_failed c toolCalls0 sa e)
  let ?s = "initialState r sa c"
  obtain es q where es0:
    "trace s1 = trace (ls_io ?s) @ es @ [Completion q (Inl e)]"
    "completionInvocations es + 1 = iterationsRun es"
    "iterationCount ?s + iterationsRun es \<le> MAX_ITERATIONS"
    "pl_tools q = pl_tools (buildPayload r)" "tool_choice q = tool_choice (buildPayload r)"
    "\<forall>q x. Completion q x \<in> set es \<longrightarrow>
       pl_tools q = pl_tools (buildPayload r) \<and> tool_choice q = tool_choice (buildPayload r)"
    using loop_Inl [OF loop_failed(5)] by blast
  have es: "trace s1 = trace sa @ es @ [Completion q (Inl e)]"
    "completionInvocations es + 1 = iterationsRun es"
    "iterationsRun es \<le> MAX_ITERATIONS"
    "pl_tools q = pl_tools (buildPayload r)" "tool_choice q = tool_choice (buildPayload r)"
    "\<forall>q x. Completion q x \<in> set es \<longrightarrow>
       pl_tools q = pl_tools (buildPayload r) \<and> tool_choice q = tool_choice (buildPayload r)"
    using es0 by simp_all
  let ?rest = "es @ [Completion q (Inl e)]"
  have "?T (Inr c) ?rest" using loop_failed(1) es(1) by (simp add: call_create_trace)
  moreover have "?N ?rest" using es(2) by simp
  moreover have "?B ?rest" using es(3) by simp
  moreover have "?M ?rest" using loop_failed(3) by simp
  moreover have "?P ?rest" using es(4,5,6) by auto
  moreover have "?R (Inr c) ?rest" using loop_failed(6) by simp
  moreover have "?E (Inr c) ?rest" using loop_failed(6) by simp
  ultimately have "?T (Inr c) ?rest \<and> ?N ?rest \<and> ?B ?rest \<and> ?M ?rest \<and> ?P ?rest
      \<and> ?R (Inr c) ?rest \<and> ?E (Inr c) ?rest"
    by (intro conjI)
  then show ?thesis by blast
next
  case (loop_done c toolCalls0 sa s)
  let ?s = "initialState r sa c"
  obtain es where es0:
    "trace (ls_io s) = trace (ls_io ?s) @ es"
    "completionInvocations es = iterationsRun es"
    "iterationCount s = iterationCount ?s + iterationsRun es"
    "iterationCount ?s \<le> MAX_ITERATIONS \<longrightarrow> iterationCount s \<le> MAX_ITERATIONS"
    "prompt (ls_tokens s) = prompt (ls_tokens ?s) + reportedSum prompt_tokens es"
    "completion (ls_tokens s) = completion (ls_tokens ?s) + reportedSum completion_tokens es"
    "total' (ls_tokens s) = total' (ls_tokens ?s) + reportedSum total_tokens es"
    "\<forall>q x. Completion q x \<in> set es \<longrightarrow>
       pl_tools q = pl_tools (buildPayload r) \<and> tool_choice q = tool_choice (buildPayload r)"
    "ls_toolResults s = ls_toolResults ?s @ executedOutputs es"
    using loop_Inr [OF loop_done(5)] by blast
  have es: "trace (ls_io s) = trace sa @ es"
    "completionInvocations es = iterationsRun es"
    "iterationCount s = iterationsRun es"
    "iterationCount s \<le> MAX_ITERATIONS"
    "prompt (ls_tokens s) = prompt (firstTokens c) + reportedSum prompt_tokens es"
    "completion (ls_tokens s) = completion (firstTokens c) + reportedSum completion_tokens es"
    "total' (ls_tokens s) = total' (firstTokens c) + reportedSum total_tokens es"
    "\<forall>q x. Completion q x \<in> set es \<longrightarrow>
       pl_tools q = pl_tools (buildPayload r) \<and> tool_choice q = tool_choice (buildPayload r)"
    "ls_toolResults s = executedOutputs es"
    using es0 by simp_all
  have "?T (Inr c) es" using loop_done(1,6) es(1) by (simp add: call_create_trace)
  moreover have "?N es" by (rule es(2))
  moreover have "?B es" using es(3,4) by simp
  moreover have "?M es" using loop_done(3) by simp
  moreover have "?P es" by (rule es(8))
  moreover have "?R (Inr c) es"
    using loop_done(2,4,7) es(5,6,7,9)
    by (simp add: firstTokens_counts [where q = "buildPayload r"])
  moreover have "?E (Inr c) es" using loop_done(7) by simp
  ultimately have "?T (Inr c) es \<and> ?N es \<and> ?B es \<and> ?M es \<and> ?P es \<and> ?R (Inr c) es \<and> ?E (Inr c) es"
    by (intro conjI)
  then show ?thesis by blast
qed

subsection \<open>Evaluating the test doubles\<close>

lemmas run_defs = executeRequest_def executeRequestIn_def toolExecutionMode_def truthy_def
  exampleRequest_def start_def scripted_def call_create_def call_executeTool_def buildPayload_def
  toolDeclarations_def allMessages_def asksFor_def says_def extractToolCalls_def toolCallsOf_def
  firstMessage_def contentOf_def stubParse_def initialState_def firstTokens_def orZero_def
  fixedUsage_def lookupTool_def brokenTool_def performed_def Let_def

lemmas loop_defs = iteration_def processToolCalls_def processToolCall_def tryToolCall_def
  findTool_def mergedArgs_def assign_def enter_iteration_def addTokens_def MAX_ITERATIONS_def
  stubStringify_def

subsection \<open>A run in the mode \<^verbatim>\<open>parameters-only\<close>\<close>

lemma executeRequestIn_run:
  assumes "executeRequestIn mode C r s0 = (res, s1)" and "truthy (apiKey r)"
  obtains (run) x rest where
    "trace s1 = trace s0 @ Completion (buildPayload r) x # rest"
    "completionInvocations rest = iterationsRun rest"
    "iterationsRun rest \<le> MAX_ITERATIONS"
    "mode = ParametersOnly \<longrightarrow> rest = []"
    "\<forall>q y. Completion q y \<in> set rest \<longrightarrow>
       pl_tools q = pl_tools (buildPayload r) \<and> tool_choice q = tool_choice (buildPayload r)"
    "\<forall>resp. res = Inr resp \<longrightarrow>
       (\<exists>c toolCalls0. x = Inr c \<and> extractToolCalls C c = Inr toolCalls0
          \<and> toolCalls resp = (if toolCalls0 \<noteq> [] then Some toolCalls0 else None)
          \<and> toolResults resp =
              (if executedOutputs rest \<noteq> [] then Some (executedOutputs rest) else None)
          \<and> prompt (tokens resp) =
              reportedSum prompt_tokens (Completion (buildPayload r) x # rest)
          \<and> completion (tokens resp) =
              reportedSum completion_tokens (Completion (buildPayload r) x # rest)
          \<and> total' (tokens resp) =
              reportedSum total_tokens (Completion (buildPayload r) x # rest)
          \<and> resp_model resp = model r)"
    "\<forall>e. res = Inl e \<longrightarrow>
       (\<exists>q. last (Completion (buildPayload r) x # rest) = Completion q (Inl e))
       \<or> (\<exists>c. x = Inr c \<and> rest = [] \<and> extractToolCalls C c = Inl e)"
  apply (insert executeRequestIn_summary [OF assms])
  apply (elim exE conjE)
  apply (rule that)
        apply assumption+
  done

lemma parametersOnly_run:
  assumes "executeRequestIn ParametersOnly C r s0 = (res, s1)" and "truthy (apiKey r)"
  shows "\<exists>x. performed s0 s1 = [Completion (buildPayload r) x]
           \<and> (\<forall>resp. res = Inr resp \<longrightarrow> toolResults resp = None)"
  using assms
proof (cases rule: executeRequestIn_run)
  case (run x rest)
  from run(4) have rest: "rest = []" by simp
  have "performed s0 s1 = [Completion (buildPayload r) x]"
    using run(1) rest by (simp add: performed_append)
  moreover have "\<forall>resp. res = Inr resp \<longrightarrow> toolResults resp = None"
    using run(6) rest by auto
  ultimately show ?thesis by blast
qed

lemma response_needs_credential:
  "executeRequestIn mode C r s0 = (Inr resp, s1) \<Longrightarrow> truthy (apiKey r)"
  by (auto simp: executeRequestIn_def split: if_splits)

lemma no_credential_no_trace:
  "\<not> truthy (apiKey r) \<Longrightarrow> executeRequestIn mode C r s0 = (res, s1) \<Longrightarrow> performed s0 s1 = []"
  by (auto simp: executeRequestIn_def)

lemma executedOutputs_Completion [simp]:
  "executedOutputs (Completion q x # es) = executedOutputs es"
  by simp

lemma iteration_tokens_grow:
  assumes "iteration C r p tcs s = Inr s'"
  shows "prompt (ls_tokens s) \<le> prompt (ls_tokens s')
     \<and> completion (ls_tokens s) \<le> completion (ls_tokens s')
     \<and> total' (ls_tokens s) \<le> total' (ls_tokens s')"
proof -
  from iteration_Inr [OF assms] obtain c where "ls_tokens s' = addTokens (ls_tokens s) c"
    by blast
  then show ?thesis
    by (simp add: addTokens_counts [where q = p])
qed

lemma parseToolCalls_Inr:
  "parseToolCalls parse tcs = Inr rs \<Longrightarrow>
     map name rs = map fn_name tcs
     \<and> map (\<lambda>x. Some (arguments x)) rs = map (\<lambda>tc. parse (fn_arguments tc)) tcs"
  by (induction tcs arbitrary: rs) (auto split: option.splits sum.splits)

subsection \<open>Objects\<close>

lemma map_of_setProp:
  "map_of (setProp k v ps) k' = (if k' = k then Some v else map_of ps k')"
  by (induction ps) auto

lemma keys_setProp:
  "map fst (setProp k v ps) = (if k \<in> set (map fst ps) then map fst ps else map fst ps @ [k])"
  by (induction ps) (force simp: image_iff)+

lemma distinct_setProp:
  "distinct (map fst ps) \<Longrightarrow> distinct (map fst (setProp k v ps))"
  by (simp add: keys_setProp)

lemma assign_Cons:
  "assign target ((k, v) # ps) = assign (setProp k v target) ps"
  by (simp add: assign_def)

lemma map_of_assign:
  "map_of (assign target ps) k =
     (case property ps k of Some v \<Rightarrow> Some v | None \<Rightarrow> map_of target k)"
proof (induction ps arbitrary: target)
  case Nil
  show ?case by (simp add: assign_def property_def)
next
  case (Cons p ps)
  obtain k' v' where p: "p = (k', v')" by (cases p)
  show ?case
    unfolding p assign_Cons Cons.IH
    by (simp add: property_def map_of_setProp map_add_def split: option.splits)
qed

lemma distinct_assign:
  "distinct (map fst target) \<Longrightarrow> distinct (map fst (assign target ps))"
proof (induction ps arbitrary: target)
  case Nil
  then show ?case by (simp add: assign_def)
next
  case (Cons p ps)
  obtain k' v' where p: "p = (k', v')" by (cases p)
  show ?case
    unfolding p assign_Cons
    by (rule Cons.IH) (rule distinct_setProp [OF Cons.prems])
qed

lemma property_distinct:
  "distinct (map fst ps) \<Longrightarrow> property ps k = map_of ps k"
proof (induction ps)
  case Nil
  show ?case by (simp add: property_def)
next
  case (Cons p ps)
  obtain k' v' where p: "p = (k', v')" by (cases p)
  from Cons.prems p have fresh: "map_of ps k' = None"
    by (simp add: map_of_eq_None_iff)
  from Cons show ?case
    unfolding p using fresh
    by (auto simp: property_def map_add_def split: option.splits)
qed

subsection \<open>The tools in the payload\<close>

lemma buildPayload_without_tools:
  "tools r = None \<or> tools r = Some [] \<Longrightarrow>
     pl_tools (buildPayload r) = None \<and> tool_choice (buildPayload r) = None"
  by (auto simp: buildPayload_def toolDeclarations_def)

lemma buildPayload_with_tools:
  "tools r = Some ts \<Longrightarrow> ts \<noteq> [] \<Longrightarrow>
     pl_tools (buildPayload r) =
       Some (map (\<lambda>t. \<lparr>fd_name = tool_id t, fd_description = description t,
                        fd_parameters = parameters t\<rparr>) ts)
     \<and> tool_choice (buildPayload r) = Some Auto"
  by (simp add: buildPayload_def toolDeclarations_def)

lemma payloads_of_run:
  assumes "executeRequestIn mode C r s0 = (res, s1)"
    and "Completion q x \<in> set (performed s0 s1)"
  shows "pl_tools q = pl_tools (buildPayload r) \<and> tool_choice q = tool_choice (buildPayload r)"
proof (cases "truthy (apiKey r)")
  case False
  from no_credential_no_trace [OF False assms(1)] assms(2) show ?thesis
    by simp
next
  case True
  from assms(1) True show ?thesis
  proof (cases rule: executeRequestIn_run)
    case (run y rest)
    have "performed s0 s1 = Completion (buildPayload r) y # rest"
      using run(1) by (simp add: performed_append)
    with assms(2) have "q = buildPayload r \<or> Completion q x \<in> set rest"
      by auto
    with run(5) show ?thesis by blast
  qed
qed

section \<open>The claims\<close>

subsection \<open>C1: a malformed argument payload\<close>

text \<open>
  The loop drops a tool call whose argument payload does not parse: the exception is
  caught inside the iteration over the batch and the state is what it was.
\<close>

lemma malformed_call_in_loop_is_dropped:
  "JSON_parse C (fn_arguments tc) = None \<Longrightarrow> processToolCall C r tc s = s"
  by (simp add: processToolCall_def tryToolCall_def)

text \<open>
  The first completion is another matter: whatever the mode, the backend and the
  parser are, one unparseable payload among its tool calls ends the request with the
  parser's exception.
\<close>

lemma parseToolCalls_malformed:
  "\<exists>tc \<in> set tcs. parse (fn_arguments tc) = None \<Longrightarrow>
     parseToolCalls parse tcs = Inl SyntaxError"
proof (induction tcs)
  case Nil
  then show ?case by simp
next
  case (Cons tc tcs)
  show ?case
  proof (cases "parse (fn_arguments tc)")
    case None
    then show ?thesis by simp
  next
    case (Some a)
    with Cons.prems have "\<exists>tc \<in> set tcs. parse (fn_arguments tc) = None"
      by auto
    from Cons.IH [OF this] Some show ?thesis by simp
  qed
qed

lemma malformed_call_in_first_completion_throws:
  assumes "truthy (apiKey r)"
    and "call_create C s0 (buildPayload r) = (Inr c, s1)"
    and "toolCallsOf c = Some tcs"
    and "\<exists>tc \<in> set tcs. JSON_parse C (fn_arguments tc) = None"
  shows "executeRequestIn mode C r s0 = (Inl SyntaxError, s1)"
  using assms parseToolCalls_malformed [OF assms(4)]
  by (simp add: executeRequestIn_def extractToolCalls_def)

text \<open>
  C1. The claim is that a tool call whose argument payload is not parseable never
  aborts the request and that no error reaches the caller. The first completion's
  tool calls are parsed at lines 104-108, outside every \<^verbatim>\<open>try\<close>: with one tool call
  whose payload is \<^verbatim>\<open>{\<close> in the first completion, \<open>executeRequest\<close> ends with the
  parser's exception, after one completion invocation and with no response.
\<close>

theorem malformed_first_completion_aborts:
  "executeRequest scripted exampleRequest (start [asksFor ''lookup'' ''{'', says ''done''])
     = (Inl SyntaxError,
        \<lparr>world = [says ''done''],
         trace = [Completion (buildPayload exampleRequest) (Inr (asksFor ''lookup'' ''{''))]\<rparr>)"
  by (simp add: run_defs)

subsection \<open>C2: the mode is fixed\<close>

text \<open>
  C2. The execution mode is the constant \<^verbatim>\<open>parameters-only\<close>. A request is one that
  carries its required credential, so that it passes the guard at lines 17-19 (C8 is
  the request that does not). For every such request, whatever the backend answers,
  \<open>executeRequest\<close> is over after the first completion: the completion capability is
  invoked exactly once, no tool is executed, the body of the loop of the mode
  \<^verbatim>\<open>sync\<close> is never entered, and the response that is returned has no
  \<^verbatim>\<open>toolResults\<close>.
\<close>

theorem mode_fixed_to_parameters_only:
  "toolExecutionMode = ParametersOnly
   \<and> (truthy (apiKey r) \<longrightarrow> executeRequest C r s0 = (res, s1) \<longrightarrow>
        completionInvocations (performed s0 s1) = 1
        \<and> toolExecutions (performed s0 s1) = 0
        \<and> iterationsRun (performed s0 s1) = 0
        \<and> (\<forall>resp. res = Inr resp \<longrightarrow> toolResults resp = None))"
proof (intro conjI impI)
  show "toolExecutionMode = ParametersOnly"
    by (simp add: toolExecutionMode_def)
next
  assume key: "truthy (apiKey r)" and run: "executeRequest C r s0 = (res, s1)"
  from run have "executeRequestIn ParametersOnly C r s0 = (res, s1)"
    by (simp add: executeRequest_def toolExecutionMode_def)
  from parametersOnly_run [OF this key] obtain x where
    "performed s0 s1 = [Completion (buildPayload r) x]"
    "\<forall>resp. res = Inr resp \<longrightarrow> toolResults resp = None"
    by blast
  then show "completionInvocations (performed s0 s1) = 1"
    "toolExecutions (performed s0 s1) = 0"
    "iterationsRun (performed s0 s1) = 0"
    "\<forall>resp. res = Inr resp \<longrightarrow> toolResults resp = None"
    by simp_all
qed

theorem mode_fixed_witness:
  "truthy (apiKey exampleRequest)
   \<and> executeRequest scripted exampleRequest (start [asksFor ''lookup'' ''{}'', says ''done''])
       = (Inr \<lparr>content = [], resp_model = Some ''gpt-4o'',
               tokens = \<lparr>prompt = 10, completion = 5, total' = 15\<rparr>,
               toolCalls = Some [\<lparr>name = ''lookup'', arguments = JObj []\<rparr>],
               toolResults = None\<rparr>,
          \<lparr>world = [says ''done''],
           trace = [Completion (buildPayload exampleRequest) (Inr (asksFor ''lookup'' ''{}''))]\<rparr>)
   \<and> completionInvocations (performed (start [asksFor ''lookup'' ''{}'', says ''done''])
        \<lparr>world = [says ''done''],
         trace = [Completion (buildPayload exampleRequest) (Inr (asksFor ''lookup'' ''{}''))]\<rparr>) = 1"
  using mode_fixed_to_parameters_only [of exampleRequest scripted
      "start [asksFor ''lookup'' ''{}'', says ''done'']"
      "Inr \<lparr>content = [], resp_model = Some ''gpt-4o'',
               tokens = \<lparr>prompt = 10, completion = 5, total' = 15\<rparr>,
               toolCalls = Some [\<lparr>name = ''lookup'', arguments = JObj []\<rparr>],
               toolResults = None\<rparr>"
      "\<lparr>world = [says ''done''],
         trace = [Completion (buildPayload exampleRequest) (Inr (asksFor ''lookup'' ''{}''))]\<rparr>"]
  by (simp add: run_defs)

subsection \<open>C3: the mode \<^verbatim>\<open>parameters-only\<close>\<close>

text \<open>
  C3. In the mode \<^verbatim>\<open>parameters-only\<close>, for every request (one that carries its
  required credential), the trace of the run is one completion invocation and nothing
  else, however many tool calls that completion requests, and the response that is
  returned has no \<^verbatim>\<open>toolResults\<close>.
\<close>

theorem parameters_only_single_completion:
  assumes "truthy (apiKey r)" and "executeRequestIn ParametersOnly C r s0 = (res, s1)"
  shows "completionInvocations (performed s0 s1) = 1
     \<and> length (performed s0 s1) = 1
     \<and> (\<forall>resp. res = Inr resp \<longrightarrow> toolResults resp = None)"
proof -
  from parametersOnly_run [OF assms(2) assms(1)] obtain x where
    "performed s0 s1 = [Completion (buildPayload r) x]"
    "\<forall>resp. res = Inr resp \<longrightarrow> toolResults resp = None"
    by blast
  then show ?thesis by simp
qed

theorem parameters_only_witness:
  "truthy (apiKey exampleRequest)
   \<and> executeRequestIn ParametersOnly scripted exampleRequest (start [twoCalls])
       = (Inr \<lparr>content = ''calling'', resp_model = Some ''gpt-4o'',
               tokens = \<lparr>prompt = 0, completion = 0, total' = 0\<rparr>,
               toolCalls = Some [\<lparr>name = ''lookup'', arguments = JObj []\<rparr>,
                                 \<lparr>name = ''broken'', arguments = JNum 7\<rparr>],
               toolResults = None\<rparr>,
          \<lparr>world = [],
           trace = [Completion (buildPayload exampleRequest) (Inr twoCalls)]\<rparr>)
   \<and> completionInvocations (performed (start [twoCalls])
        \<lparr>world = [],
         trace = [Completion (buildPayload exampleRequest) (Inr twoCalls)]\<rparr>) = 1"
proof -
  have key: "truthy (apiKey exampleRequest)"
    by (simp add: run_defs)
  have run: "executeRequestIn ParametersOnly scripted exampleRequest (start [twoCalls])
       = (Inr \<lparr>content = ''calling'', resp_model = Some ''gpt-4o'',
               tokens = \<lparr>prompt = 0, completion = 0, total' = 0\<rparr>,
               toolCalls = Some [\<lparr>name = ''lookup'', arguments = JObj []\<rparr>,
                                 \<lparr>name = ''broken'', arguments = JNum 7\<rparr>],
               toolResults = None\<rparr>,
          \<lparr>world = [],
           trace = [Completion (buildPayload exampleRequest) (Inr twoCalls)]\<rparr>)"
    by (simp add: run_defs twoCalls_def)
  show ?thesis
    using key run parameters_only_single_completion [OF key run] by simp
qed

subsection \<open>C4: the iteration cap of the mode \<^verbatim>\<open>sync\<close>\<close>

text \<open>
  C4. In the mode \<^verbatim>\<open>sync\<close>, for every request (one that carries its required
  credential) and whatever the backend and the tools answer, also when every
  completion requests further tool calls: the body of the loop is entered at most 10
  times; the completion capability is invoked once more than the body is entered; and
  when the body has been entered 10 times and the last completion came back, the
  request ends normally with a response that holds what has accumulated, the token
  counts summed over all completions and the outputs of all successful tool
  executions.
\<close>

theorem sync_iterations_bounded:
  assumes "truthy (apiKey r)" and "executeRequestIn Sync C r s0 = (res, s1)"
  shows "iterationsRun (performed s0 s1) \<le> 10
     \<and> completionInvocations (performed s0 s1) = 1 + iterationsRun (performed s0 s1)
     \<and> (iterationsRun (performed s0 s1) = 10
          \<and> (\<exists>q c. last (performed s0 s1) = Completion q (Inr c)) \<longrightarrow>
         (\<exists>resp. res = Inr resp
            \<and> prompt (tokens resp) = reportedSum prompt_tokens (performed s0 s1)
            \<and> completion (tokens resp) = reportedSum completion_tokens (performed s0 s1)
            \<and> total' (tokens resp) = reportedSum total_tokens (performed s0 s1)
            \<and> toolResults resp = (if executedOutputs (performed s0 s1) \<noteq> []
                                   then Some (executedOutputs (performed s0 s1)) else None)))"
  using assms(2) assms(1)
proof (cases rule: executeRequestIn_run)
  case (run x rest)
  let ?new = "Completion (buildPayload r) x # rest"
  have new: "performed s0 s1 = ?new"
    using run(1) by (simp add: performed_append)
  have bound: "iterationsRun ?new \<le> 10"
    using run(3) by (simp add: MAX_ITERATIONS_def)
  have count: "completionInvocations ?new = 1 + iterationsRun ?new"
    using run(2) by simp
  have cap: "\<exists>resp. res = Inr resp
            \<and> prompt (tokens resp) = reportedSum prompt_tokens ?new
            \<and> completion (tokens resp) = reportedSum completion_tokens ?new
            \<and> total' (tokens resp) = reportedSum total_tokens ?new
            \<and> toolResults resp = (if executedOutputs ?new \<noteq> []
                                   then Some (executedOutputs ?new) else None)"
    if ten: "iterationsRun ?new = 10" and ok: "\<exists>q c. last ?new = Completion q (Inr c)"
  proof (cases res)
    case (Inl e)
    with run(7) consider
      (thrown) q where "last ?new = Completion q (Inl e)"
    | (unparsed) "rest = []"
      by blast
    then show ?thesis
    proof cases
      case thrown
      with ok show ?thesis by auto
    next
      case unparsed
      with ten show ?thesis by simp
    qed
  next
    case (Inr resp)
    with run(6) show ?thesis by auto
  qed
  show ?thesis
    unfolding new using bound count cap by blast
qed

theorem sync_cap_witness:
  "truthy (apiKey exampleRequest)
   \<and> iterationsRun (performed (start insistent)
       (snd (executeRequestIn Sync scripted exampleRequest (start insistent)))) = 10
   \<and> completionInvocations (performed (start insistent)
       (snd (executeRequestIn Sync scripted exampleRequest (start insistent)))) = 11
   \<and> world (snd (executeRequestIn Sync scripted exampleRequest (start insistent)))
       = [asksFor ''lookup'' ''{}'']
   \<and> (\<exists>resp. fst (executeRequestIn Sync scripted exampleRequest (start insistent)) = Inr resp
        \<and> total' (tokens resp) = 165)"
proof -
  let ?run = "executeRequestIn Sync scripted exampleRequest (start insistent)"
  have key: "truthy (apiKey exampleRequest)"
    by (simp add: run_defs)
  have "\<exists>w T. snd ?run = \<lparr>world = w, trace = T\<rparr>
      \<and> w = [asksFor ''lookup'' ''{}'']
      \<and> iterationsRun T = 10
      \<and> (\<exists>q c. last T = Completion q (Inr c))
      \<and> reportedSum total_tokens T = 165"
    by (simp add: run_defs loop_defs loop.simps insistent_def)
  then obtain w T where ev: "snd ?run = \<lparr>world = w, trace = T\<rparr>"
    "w = [asksFor ''lookup'' ''{}'']" "iterationsRun T = 10"
    "\<exists>q c. last T = Completion q (Inr c)" "reportedSum total_tokens T = 165"
    by blast
  have new: "performed (start insistent) (snd ?run) = T"
    unfolding ev(1) by (simp add: performed_def start_def)
  have left: "world (snd ?run) = [asksFor ''lookup'' ''{}'']"
    by (simp add: ev(1) ev(2))
  have run: "?run = (fst ?run, snd ?run)"
    by simp
  note bounded = sync_iterations_bounded [OF key run, unfolded new]
  show ?thesis
    unfolding new using key left ev(3-5) bounded by auto
qed

subsection \<open>C5: token usage\<close>

text \<open>
  C5. Whenever a response is returned, in either mode, each of its three token counts
  is the sum of that count over all completion invocations of the run, where an
  absent usage or an absent count contributes 0. And no pass through the body of the
  loop lowers any of the three running counts.
\<close>

theorem token_usage_is_exact_sum:
  "(executeRequestIn mode C r s0 = (Inr resp, s1) \<longrightarrow>
      prompt (tokens resp) = reportedSum prompt_tokens (performed s0 s1)
      \<and> completion (tokens resp) = reportedSum completion_tokens (performed s0 s1)
      \<and> total' (tokens resp) = reportedSum total_tokens (performed s0 s1))
   \<and> (\<forall>s'. iteration C r p tcs s = Inr s' \<longrightarrow>
        prompt (ls_tokens s) \<le> prompt (ls_tokens s')
        \<and> completion (ls_tokens s) \<le> completion (ls_tokens s')
        \<and> total' (ls_tokens s) \<le> total' (ls_tokens s'))"
proof (intro conjI impI allI)
  assume ret: "executeRequestIn mode C r s0 = (Inr resp, s1)"
  from ret response_needs_credential [OF ret]
  have "prompt (tokens resp) = reportedSum prompt_tokens (performed s0 s1)
      \<and> completion (tokens resp) = reportedSum completion_tokens (performed s0 s1)
      \<and> total' (tokens resp) = reportedSum total_tokens (performed s0 s1)"
  proof (cases rule: executeRequestIn_run)
    case (run x rest)
    have "performed s0 s1 = Completion (buildPayload r) x # rest"
      using run(1) by (simp add: performed_append)
    with run(6) show ?thesis by auto
  qed
  then show "prompt (tokens resp) = reportedSum prompt_tokens (performed s0 s1)"
    "completion (tokens resp) = reportedSum completion_tokens (performed s0 s1)"
    "total' (tokens resp) = reportedSum total_tokens (performed s0 s1)"
    by simp_all
next
  fix s' assume "iteration C r p tcs s = Inr s'"
  from iteration_tokens_grow [OF this]
  show "prompt (ls_tokens s) \<le> prompt (ls_tokens s')"
    "completion (ls_tokens s) \<le> completion (ls_tokens s')"
    "total' (ls_tokens s) \<le> total' (ls_tokens s')"
    by simp_all
qed


theorem token_usage_witness:
  "(\<exists>resp s1. executeRequestIn Sync scripted exampleRequest (start threeTurns) = (Inr resp, s1)
      \<and> tokens resp = \<lparr>prompt = 30, completion = 15, total' = 45\<rparr>
      \<and> completionInvocations (performed (start threeTurns) s1) = 3
      \<and> reportedSum prompt_tokens (performed (start threeTurns) s1) = 30
      \<and> reportedSum completion_tokens (performed (start threeTurns) s1) = 15
      \<and> reportedSum total_tokens (performed (start threeTurns) s1) = 45)
   \<and> (\<exists>s'. iteration scripted exampleRequest (buildPayload exampleRequest)
              [\<lparr>call_id = ''call_1'', fn_name = ''lookup'', fn_arguments = ''{}''\<rparr>]
              (initialState exampleRequest (start [says ''done'']) (asksFor ''lookup'' ''{}''))
            = Inr s'
        \<and> total' (ls_tokens
              (initialState exampleRequest (start [says ''done'']) (asksFor ''lookup'' ''{}'')))
            \<le> total' (ls_tokens s'))"
proof -
  let ?s = "initialState exampleRequest (start [says ''done'']) (asksFor ''lookup'' ''{}'')"
  let ?tcs = "[\<lparr>call_id = ''call_1'', fn_name = ''lookup'', fn_arguments = ''{}''\<rparr>]"
  have "\<exists>resp s1. executeRequestIn Sync scripted exampleRequest (start threeTurns) = (Inr resp, s1)
      \<and> tokens resp = \<lparr>prompt = 30, completion = 15, total' = 45\<rparr>
      \<and> completionInvocations (performed (start threeTurns) s1) = 3"
    by (simp add: run_defs loop_defs loop.simps threeTurns_def)
  then obtain resp s1 where
    run: "executeRequestIn Sync scripted exampleRequest (start threeTurns) = (Inr resp, s1)"
    and tok: "tokens resp = \<lparr>prompt = 30, completion = 15, total' = 45\<rparr>"
    and three: "completionInvocations (performed (start threeTurns) s1) = 3"
    by blast
  have "\<exists>s'. iteration scripted exampleRequest (buildPayload exampleRequest) ?tcs ?s = Inr s'"
    by (simp add: run_defs loop_defs)
  then obtain s' where
    step: "iteration scripted exampleRequest (buildPayload exampleRequest) ?tcs ?s = Inr s'"
    by blast
  show ?thesis
    using run tok three step
      token_usage_is_exact_sum [of Sync scripted exampleRequest "start threeTurns" resp s1
        "buildPayload exampleRequest" ?tcs ?s]
    by auto
qed

subsection \<open>C6: the reported tool calls\<close>

text \<open>
  C6. Whenever a response is returned, in either mode, its \<^verbatim>\<open>toolCalls\<close> are read off
  the first completion of the run and no other: the field is absent when that
  completion has no tool calls or an empty list of them, and otherwise it lists, in
  order, the name and the parsed argument payload of each of its tool calls.
\<close>

theorem toolCalls_from_first_completion:
  assumes "executeRequestIn mode C r s0 = (Inr resp, s1)"
  shows "\<exists>c rest. performed s0 s1 = Completion (buildPayload r) (Inr c) # rest
     \<and> (case toolCallsOf c of
           None \<Rightarrow> toolCalls resp = None
         | Some tcs \<Rightarrow>
             if tcs = [] then toolCalls resp = None
             else (\<exists>rs. toolCalls resp = Some rs
                    \<and> map name rs = map fn_name tcs
                    \<and> map (\<lambda>x. Some (arguments x)) rs =
                        map (\<lambda>tc. JSON_parse C (fn_arguments tc)) tcs))"
  using assms response_needs_credential [OF assms]
proof (cases rule: executeRequestIn_run)
  case (run x rest)
  from run(6) obtain c toolCalls0 where c: "x = Inr c"
    and ex: "extractToolCalls C c = Inr toolCalls0"
    and tc: "toolCalls resp = (if toolCalls0 \<noteq> [] then Some toolCalls0 else None)"
    by blast
  have new: "performed s0 s1 = Completion (buildPayload r) (Inr c) # rest"
    using run(1) c by (simp add: performed_append)
  have "case toolCallsOf c of
           None \<Rightarrow> toolCalls resp = None
         | Some tcs \<Rightarrow>
             if tcs = [] then toolCalls resp = None
             else (\<exists>rs. toolCalls resp = Some rs
                    \<and> map name rs = map fn_name tcs
                    \<and> map (\<lambda>x. Some (arguments x)) rs =
                        map (\<lambda>tc. JSON_parse C (fn_arguments tc)) tcs)"
  proof (cases "toolCallsOf c")
    case None
    with ex tc show ?thesis by (simp add: extractToolCalls_def)
  next
    case (Some tcs)
    with ex have parsed: "parseToolCalls (JSON_parse C) tcs = Inr toolCalls0"
      by (simp add: extractToolCalls_def)
    note same = parseToolCalls_Inr [OF parsed]
    show ?thesis
    proof (cases "tcs = []")
      case True
      with parsed tc Some show ?thesis by simp
    next
      case False
      from same have "length toolCalls0 = length tcs"
        using map_eq_imp_length_eq by blast
      with False have "toolCalls0 \<noteq> []" by auto
      with tc same Some False show ?thesis by simp
    qed
  qed
  with new show ?thesis by blast
qed

theorem toolCalls_witness:
  "\<exists>resp s1. executeRequestIn Sync scripted exampleRequest (start threeTurns) = (Inr resp, s1)
     \<and> completionInvocations (performed (start threeTurns) s1) = 3
     \<and> toolCalls resp = Some [\<lparr>name = ''lookup'', arguments = JObj []\<rparr>]
     \<and> (\<exists>rest. performed (start threeTurns) s1 =
           Completion (buildPayload exampleRequest) (Inr (asksFor ''lookup'' ''{}'')) # rest)"
proof -
  have "\<exists>resp s1. executeRequestIn Sync scripted exampleRequest (start threeTurns) = (Inr resp, s1)
      \<and> completionInvocations (performed (start threeTurns) s1) = 3
      \<and> toolCalls resp = Some [\<lparr>name = ''lookup'', arguments = JObj []\<rparr>]
      \<and> hd (performed (start threeTurns) s1)
          = Completion (buildPayload exampleRequest) (Inr (asksFor ''lookup'' ''{}''))"
    by (simp add: run_defs loop_defs loop.simps threeTurns_def)
  then obtain resp s1 where
    run: "executeRequestIn Sync scripted exampleRequest (start threeTurns) = (Inr resp, s1)"
    and three: "completionInvocations (performed (start threeTurns) s1) = 3"
    and tc: "toolCalls resp = Some [\<lparr>name = ''lookup'', arguments = JObj []\<rparr>]"
    and first: "hd (performed (start threeTurns) s1)
          = Completion (buildPayload exampleRequest) (Inr (asksFor ''lookup'' ''{}''))"
    by blast
  from toolCalls_from_first_completion [OF run] obtain c rest where
    new: "performed (start threeTurns) s1 = Completion (buildPayload exampleRequest) (Inr c) # rest"
    by blast
  with first have "c = asksFor ''lookup'' ''{}''" by simp
  with run three tc new show ?thesis by blast
qed

subsection \<open>C7: merging the default parameters\<close>

text \<open>
  C7. For every tool and every argument object \<open>a\<close> that the model supplies, the
  merged arguments are an object whose value at each key is the model's value when
  the model supplies that key, and the tool's default otherwise (no value when
  neither has the key, or the tool has no defaults). These merged arguments are what
  is passed, with the tool's name and the flag for raw output, to the tool-execution
  capability.
\<close>

theorem merged_arguments_override_defaults:
  "(\<exists>m. mergedArgs t (JObj a) = JObj m
       \<and> distinct (map fst m)
       \<and> (\<forall>k. map_of m k =
             (case property a k of
                Some v \<Rightarrow> Some v
              | None \<Rightarrow> (case params t of None \<Rightarrow> None | Some d \<Rightarrow> property d k))))
   \<and> (JSON_parse C (fn_arguments tc) = Some (JObj a) \<and> findTool r (fn_name tc) = Some t \<longrightarrow>
        (\<exists>res. performed (ls_io s) (ls_io (processToolCall C r tc s))
                 = [ToolExecution (fn_name tc) (mergedArgs t (JObj a)) True res]))"
proof (intro conjI impI)
  let ?d = "case params t of None \<Rightarrow> [] | Some d \<Rightarrow> d"
  let ?m = "assign (assign [] ?d) a"
  have "mergedArgs t (JObj a) = JObj ?m"
    by (simp add: mergedArgs_def)
  moreover have "distinct (map fst ?m)"
    by (intro distinct_assign) simp
  moreover have "map_of ?m k =
      (case property a k of
         Some v \<Rightarrow> Some v
       | None \<Rightarrow> (case params t of None \<Rightarrow> None | Some d \<Rightarrow> property d k))" for k
    by (simp add: map_of_assign property_def split: option.splits)
  ultimately show "\<exists>m. mergedArgs t (JObj a) = JObj m
       \<and> distinct (map fst m)
       \<and> (\<forall>k. map_of m k =
             (case property a k of
                Some v \<Rightarrow> Some v
              | None \<Rightarrow> (case params t of None \<Rightarrow> None | Some d \<Rightarrow> property d k)))"
    by blast
next
  assume "JSON_parse C (fn_arguments tc) = Some (JObj a) \<and> findTool r (fn_name tc) = Some t"
  then have p: "JSON_parse C (fn_arguments tc) = Some (JObj a)"
    and f: "findTool r (fn_name tc) = Some t"
    by simp_all
  obtain res io' where call:
    "call_executeTool C (ls_io s) (fn_name tc) (mergedArgs t (JObj a)) True = (res, io')"
    by (cases "call_executeTool C (ls_io s) (fn_name tc) (mergedArgs t (JObj a)) True")
  have "ls_io (processToolCall C r tc s) = io'"
    using p f call
    by (cases res)
       (simp_all add: processToolCall_def tryToolCall_def Let_def split: sum.splits)
  then have "performed (ls_io s) (ls_io (processToolCall C r tc s))
      = [ToolExecution (fn_name tc) (mergedArgs t (JObj a)) True res]"
    using call_executeTool_trace [OF call] by (simp add: performed_append)
  then show "\<exists>res. performed (ls_io s) (ls_io (processToolCall C r tc s))
                 = [ToolExecution (fn_name tc) (mergedArgs t (JObj a)) True res]"
    by blast
qed

theorem merged_arguments_witness:
  "mergedArgs lookupTool (JObj [(''y'', JNum 9)]) = JObj [(''x'', JNum 1), (''y'', JNum 9)]
   \<and> params lookupTool = Some [(''x'', JNum 1), (''y'', JNum 2)]
   \<and> JSON_parse scripted (fn_arguments (lookupCall ''{\"y\":9}'')) = Some (JObj [(''y'', JNum 9)])
   \<and> findTool exampleRequest (fn_name (lookupCall ''{\"y\":9}'')) = Some lookupTool
   \<and> (\<exists>res. performed (ls_io idle)
          (ls_io (processToolCall scripted exampleRequest (lookupCall ''{\"y\":9}'') idle))
        = [ToolExecution ''lookup'' (JObj [(''x'', JNum 1), (''y'', JNum 9)]) True res])"
proof -
  have m: "mergedArgs lookupTool (JObj [(''y'', JNum 9)]) = JObj [(''x'', JNum 1), (''y'', JNum 9)]"
    by (simp add: mergedArgs_def assign_def lookupTool_def)
  have d: "params lookupTool = Some [(''x'', JNum 1), (''y'', JNum 2)]"
    by (simp add: lookupTool_def)
  have p: "JSON_parse scripted (fn_arguments (lookupCall ''{\"y\":9}'')) = Some (JObj [(''y'', JNum 9)])"
    by (simp add: scripted_def lookupCall_def stubParse_def)
  have f: "findTool exampleRequest (fn_name (lookupCall ''{\"y\":9}'')) = Some lookupTool"
    by (simp add: findTool_def exampleRequest_def lookupCall_def lookupTool_def brokenTool_def)
  have n: "fn_name (lookupCall ''{\"y\":9}'') = ''lookup''"
    by (simp add: lookupCall_def)
  show ?thesis
    using m d p f n
      merged_arguments_override_defaults [of lookupTool "[(''y'', JNum 9)]" scripted
        "lookupCall ''{\"y\":9}''" exampleRequest idle]
    by simp
qed


subsection \<open>C8: a missing credential\<close>

text \<open>
  C8. For every request whose API key is missing (absent, or the empty string, which
  \<^verbatim>\<open>!request.apiKey\<close> treats alike), \<open>executeRequest\<close> fails at once with the
  error \<^verbatim>\<open>API key is required\<close>: the outside world and the trace are as they were,
  so no completion has been invoked. This holds whatever the execution mode is.
\<close>

theorem missing_credential_fails_immediately:
  "\<not> truthy (apiKey r) \<Longrightarrow>
     executeRequest C r s0 = (Inl ApiKeyRequired, s0)
     \<and> executeRequestIn mode C r s0 = (Inl ApiKeyRequired, s0)
     \<and> completionInvocations (performed s0 (snd (executeRequest C r s0))) = 0"
  by (simp add: executeRequest_def executeRequestIn_def)

theorem missing_credential_witness:
  "\<not> truthy (apiKey (exampleRequest\<lparr>apiKey := None\<rparr>))
   \<and> executeRequest scripted (exampleRequest\<lparr>apiKey := None\<rparr>) (start [says ''hi''])
       = (Inl ApiKeyRequired, start [says ''hi''])
   \<and> completionInvocations (performed (start [says ''hi''])
        (snd (executeRequest scripted (exampleRequest\<lparr>apiKey := None\<rparr>) (start [says ''hi''])))) = 0"
proof -
  have h: "\<not> truthy (apiKey (exampleRequest\<lparr>apiKey := None\<rparr>))"
    by (simp add: truthy_def)
  show ?thesis
    using h missing_credential_fails_immediately [OF h, of scripted "start [says ''hi'']"]
    by simp
qed

subsection \<open>C9: the tools in the payload\<close>

text \<open>
  C9. Every payload that a run sends to the backend, the first and those of the loop:
  when the request's tool set is absent or empty, the payload has neither a
  \<^verbatim>\<open>tools\<close> field nor a \<^verbatim>\<open>tool_choice\<close>; when the tool set is not empty, the payload
  has the declarations of exactly these tools and \<^verbatim>\<open>tool_choice: 'auto'\<close>.
\<close>

theorem tools_field_iff_nonempty_tool_set:
  assumes "executeRequestIn mode C r s0 = (res, s1)"
    and "Completion q x \<in> set (performed s0 s1)"
  shows "(tools r = None \<or> tools r = Some [] \<longrightarrow> pl_tools q = None \<and> tool_choice q = None)
     \<and> (\<forall>ts. tools r = Some ts \<and> ts \<noteq> [] \<longrightarrow>
           pl_tools q =
             Some (map (\<lambda>t. \<lparr>fd_name = tool_id t, fd_description = description t,
                              fd_parameters = parameters t\<rparr>) ts)
           \<and> tool_choice q = Some Auto)"
  using payloads_of_run [OF assms] buildPayload_without_tools [of r] buildPayload_with_tools [of r]
  by auto

theorem tools_field_witness:
  "(\<exists>res s1 q x.
      executeRequestIn Sync scripted (exampleRequest\<lparr>tools := Some []\<rparr>) (start threeTurns)
        = (res, s1)
      \<and> Completion q x \<in> set (performed (start threeTurns) s1)
      \<and> tools (exampleRequest\<lparr>tools := Some []\<rparr>) = Some []
      \<and> pl_tools q = None \<and> tool_choice q = None)
   \<and> (\<exists>res s1 q x.
      executeRequestIn Sync scripted exampleRequest (start threeTurns) = (res, s1)
      \<and> last (performed (start threeTurns) s1) = Completion q x
      \<and> Completion q x \<in> set (performed (start threeTurns) s1)
      \<and> tools exampleRequest = Some [lookupTool, brokenTool]
      \<and> pl_tools q =
           Some [\<lparr>fd_name = ''lookup'', fd_description = ''looks a value up'',
                   fd_parameters = JObj []\<rparr>,
                 \<lparr>fd_name = ''broken'', fd_description = ''always fails'',
                   fd_parameters = JObj []\<rparr>]
      \<and> tool_choice q = Some Auto)"
proof (intro conjI)
  let ?r = "exampleRequest\<lparr>tools := Some []\<rparr>"
  have "\<exists>res s1 q x. executeRequestIn Sync scripted ?r (start threeTurns) = (res, s1)
      \<and> performed (start threeTurns) s1 \<noteq> []
      \<and> last (performed (start threeTurns) s1) = Completion q x"
    by (simp add: run_defs loop_defs loop.simps threeTurns_def)
  then obtain res s1 q x where
    run: "executeRequestIn Sync scripted ?r (start threeTurns) = (res, s1)"
    and ne: "performed (start threeTurns) s1 \<noteq> []"
    and lst: "last (performed (start threeTurns) s1) = Completion q x"
    by blast
  from ne lst have sent: "Completion q x \<in> set (performed (start threeTurns) s1)"
    using last_in_set by metis
  have none: "tools ?r = Some []"
    by simp
  from tools_field_iff_nonempty_tool_set [OF run sent] none
  have "pl_tools q = None \<and> tool_choice q = None"
    by simp
  with run sent none
  show "\<exists>res s1 q x. executeRequestIn Sync scripted ?r (start threeTurns) = (res, s1)
      \<and> Completion q x \<in> set (performed (start threeTurns) s1)
      \<and> tools ?r = Some []
      \<and> pl_tools q = None \<and> tool_choice q = None"
    by blast
next
  have "\<exists>res s1 q x. executeRequestIn Sync scripted exampleRequest (start threeTurns) = (res, s1)
      \<and> performed (start threeTurns) s1 \<noteq> []
      \<and> last (performed (start threeTurns) s1) = Completion q x"
    by (simp add: run_defs loop_defs loop.simps threeTurns_def)
  then obtain res s1 q x where
    run: "executeRequestIn Sync scripted exampleRequest (start threeTurns) = (res, s1)"
    and ne: "performed (start threeTurns) s1 \<noteq> []"
    and lst: "last (performed (start threeTurns) s1) = Completion q x"
    by blast
  from ne lst have sent: "Completion q x \<in> set (performed (start threeTurns) s1)"
    using last_in_set by metis
  have some: "tools exampleRequest = Some [lookupTool, brokenTool]"
    "[lookupTool, brokenTool] \<noteq> []"
    by (simp_all add: exampleRequest_def)
  from tools_field_iff_nonempty_tool_set [OF run sent] some
  have "pl_tools q =
           Some [\<lparr>fd_name = ''lookup'', fd_description = ''looks a value up'',
                   fd_parameters = JObj []\<rparr>,
                 \<lparr>fd_name = ''broken'', fd_description = ''always fails'',
                   fd_parameters = JObj []\<rparr>]
      \<and> tool_choice q = Some Auto"
    by (simp add: lookupTool_def brokenTool_def)
  with run lst sent some(1)
  show "\<exists>res s1 q x.
      executeRequestIn Sync scripted exampleRequest (start threeTurns) = (res, s1)
      \<and> last (performed (start threeTurns) s1) = Completion q x
      \<and> Completion q x \<in> set (performed (start threeTurns) s1)
      \<and> tools exampleRequest = Some [lookupTool, brokenTool]
      \<and> pl_tools q =
           Some [\<lparr>fd_name = ''lookup'', fd_description = ''looks a value up'',
                   fd_parameters = JObj []\<rparr>,
                 \<lparr>fd_name = ''broken'', fd_description = ''always fails'',
                   fd_parameters = JObj []\<rparr>]
      \<and> tool_choice q = Some Auto"
    by blast
qed


subsection \<open>C10: the growth of the conversation\<close>

text \<open>
  What the code does for one tool call. A call to a tool that is not in the request's
  tool set, and a call whose execution reports failure, append nothing. A call whose
  execution reports success and whose output can be serialised appends two messages:
  the assistant's record of the call, then the tool's message, both with the
  identifier of the call.
\<close>

lemma skipped_call_appends_nothing:
  "findTool r (fn_name tc) = None \<Longrightarrow>
     currentMessages (processToolCall C r tc s) = currentMessages s"
  "JSON_parse C (fn_arguments tc) = Some a \<Longrightarrow> findTool r (fn_name tc) = Some t \<Longrightarrow>
   executeTool C (world (ls_io s)) (fn_name tc) (mergedArgs t a) True = (Inr result, w') \<Longrightarrow>
   \<not> success result \<Longrightarrow>
     currentMessages (processToolCall C r tc s) = currentMessages s"
  by (simp_all add: processToolCall_def tryToolCall_def call_executeTool_def Let_def
      split: option.splits)

lemma serialised_call_appends_two:
  "JSON_parse C (fn_arguments tc) = Some a \<Longrightarrow> findTool r (fn_name tc) = Some t \<Longrightarrow>
   executeTool C (world (ls_io s)) (fn_name tc) (mergedArgs t a) True = (Inr result, w') \<Longrightarrow>
   success result \<Longrightarrow> JSON_stringify C (output' result) = Inr text \<Longrightarrow>
     currentMessages (processToolCall C r tc s) =
       currentMessages s @
         [AssistantToolCall (call_id tc) (fn_name tc) (fn_arguments tc),
          ToolMessage (call_id tc) text]"
  by (simp add: processToolCall_def tryToolCall_def call_executeTool_def Let_def)

text \<open>
  When the output cannot be serialised, the exception of \<^verbatim>\<open>JSON.stringify\<close> is caught
  like every other, but the output is already among the tool results and the
  assistant's record is already in the conversation: the executed call has appended
  one message, and the record of the call stays without the tool's answer.
\<close>

lemma unserialisable_output_appends_one:
  "JSON_parse C (fn_arguments tc) = Some a \<Longrightarrow> findTool r (fn_name tc) = Some t \<Longrightarrow>
   executeTool C (world (ls_io s)) (fn_name tc) (mergedArgs t a) True = (Inr result, w') \<Longrightarrow>
   success result \<Longrightarrow> JSON_stringify C (output' result) = Inl e \<Longrightarrow>
     currentMessages (processToolCall C r tc s) =
       currentMessages s @ [AssistantToolCall (call_id tc) (fn_name tc) (fn_arguments tc)]
     \<and> ls_toolResults (processToolCall C r tc s) = ls_toolResults s @ [output' result]"
  by (simp add: processToolCall_def tryToolCall_def call_executeTool_def Let_def)


end
